theory Spec2Isabelle
  imports Complex_Main "HOL-Library.Word"
begin

section \<open>JavaScript numbers\<close>

text \<open>
  A JavaScript Number is a finite value, one of the two infinities, or NaN.  Finite
  values are modelled by exact rationals: the arithmetic below is exact on the finite
  range and does not model binary64 rounding of in-range results, underflow or the
  sign of zero; statements that depend on the last bits of a double are therefore not
  made in this theory.  The range itself is modelled: an exact result whose magnitude reaches
  \<open>2^1024 - 2^970\<close> (the least magnitude that IEEE round-to-nearest sends to
  Infinity) becomes \<open>PosInf\<close> or \<open>NegInf\<close>, which is what the guards
  \<open>Number.isFinite\<close> in the source test for.
\<close>

datatype number = Fin rat | PosInf | NegInf | NaN

definition DBL_LIMIT :: rat where
  "DBL_LIMIT = 2 ^ 1024 - 2 ^ 970"

definition MAX_VALUE :: rat where
  "MAX_VALUE = 2 ^ 1024 - 2 ^ 971"

definition EPSILON :: rat where
  "EPSILON = 1 / 2 ^ 52"

definition fromExact :: "rat \<Rightarrow> number" where
  "fromExact q = (if DBL_LIMIT \<le> q then PosInf else if q \<le> - DBL_LIMIT then NegInf else Fin q)"

fun isFinite :: "number \<Rightarrow> bool" where
  "isFinite (Fin q) = True"
| "isFinite PosInf = False"
| "isFinite NegInf = False"
| "isFinite NaN = False"

fun js_add :: "number \<Rightarrow> number \<Rightarrow> number" where
  "js_add (Fin a) (Fin b) = fromExact (a + b)"
| "js_add NaN y = NaN"
| "js_add x NaN = NaN"
| "js_add PosInf NegInf = NaN"
| "js_add NegInf PosInf = NaN"
| "js_add PosInf y = PosInf"
| "js_add NegInf y = NegInf"
| "js_add (Fin a) PosInf = PosInf"
| "js_add (Fin a) NegInf = NegInf"

fun js_neg :: "number \<Rightarrow> number" where
  "js_neg (Fin a) = Fin (- a)"
| "js_neg PosInf = NegInf"
| "js_neg NegInf = PosInf"
| "js_neg NaN = NaN"

fun js_mul :: "number \<Rightarrow> number \<Rightarrow> number" where
  "js_mul (Fin a) (Fin b) = fromExact (a * b)"
| "js_mul NaN y = NaN"
| "js_mul x NaN = NaN"
| "js_mul PosInf (Fin b) = (if b = 0 then NaN else if 0 < b then PosInf else NegInf)"
| "js_mul NegInf (Fin b) = (if b = 0 then NaN else if 0 < b then NegInf else PosInf)"
| "js_mul (Fin a) PosInf = (if a = 0 then NaN else if 0 < a then PosInf else NegInf)"
| "js_mul (Fin a) NegInf = (if a = 0 then NaN else if 0 < a then NegInf else PosInf)"
| "js_mul PosInf PosInf = PosInf"
| "js_mul PosInf NegInf = NegInf"
| "js_mul NegInf PosInf = NegInf"
| "js_mul NegInf NegInf = PosInf"

fun js_div :: "number \<Rightarrow> number \<Rightarrow> number" where
  "js_div (Fin a) (Fin b) =
     (if b = 0 then (if a = 0 then NaN else if 0 < a then PosInf else NegInf)
      else fromExact (a / b))"
| "js_div NaN y = NaN"
| "js_div x NaN = NaN"
| "js_div (Fin a) PosInf = Fin 0"
| "js_div (Fin a) NegInf = Fin 0"
| "js_div PosInf (Fin b) = (if 0 \<le> b then PosInf else NegInf)"
| "js_div NegInf (Fin b) = (if 0 \<le> b then NegInf else PosInf)"
| "js_div PosInf y = NaN"
| "js_div NegInf y = NaN"

text \<open>The comparisons \<open>a < b\<close> and \<open>a <= b\<close>; \<open>a > b\<close> is \<open>js_less b a\<close>.\<close>

fun js_less :: "number \<Rightarrow> number \<Rightarrow> bool" where
  "js_less (Fin a) (Fin b) = (a < b)"
| "js_less NaN y = False"
| "js_less x NaN = False"
| "js_less PosInf y = False"
| "js_less x NegInf = False"
| "js_less NegInf y = True"
| "js_less (Fin a) PosInf = True"

fun js_le :: "number \<Rightarrow> number \<Rightarrow> bool" where
  "js_le (Fin a) (Fin b) = (a \<le> b)"
| "js_le NaN y = False"
| "js_le x NaN = False"
| "js_le NegInf y = True"
| "js_le x PosInf = True"
| "js_le PosInf y = False"
| "js_le (Fin a) NegInf = False"

text \<open>\<open>Math.round\<close>: the nearest integer, a tie going towards plus infinity.\<close>

fun Math_round :: "number \<Rightarrow> number" where
  "Math_round (Fin q) = Fin (of_int \<lfloor>q + 1 / 2\<rfloor>)"
| "Math_round x = x"

fun Math_trunc :: "number \<Rightarrow> number" where
  "Math_trunc (Fin q) = Fin (if 0 \<le> q then of_int \<lfloor>q\<rfloor> else of_int \<lceil>q\<rceil>)"
| "Math_trunc x = x"

fun isInteger :: "number \<Rightarrow> bool" where
  "isInteger (Fin q) = (q = of_int \<lfloor>q\<rfloor>)"
| "isInteger x = False"

section \<open>Field values of a draft\<close>

text \<open>
  A numeric field of the wizard state holds the empty string, \<open>null\<close>,
  \<open>undefined\<close>, or some other value, of which the code only ever looks at
  \<open>Number(v)\<close>: \<open>Val q\<close> is a number or a non-empty numeric string whose exact
  value is \<open>q\<close> (a literal beyond the double range converts to an infinity, as
  \<open>Number('1e400')\<close> does), \<open>Garbage\<close> is a value that converts to NaN.
\<close>

datatype field = EmptyStr | Null | Undefined | Val rat | Garbage

fun Number :: "field \<Rightarrow> number" where
  "Number EmptyStr = Fin 0"
| "Number Null = Fin 0"
| "Number Undefined = NaN"
| "Number (Val q) = fromExact q"
| "Number Garbage = NaN"

definition blank :: "field \<Rightarrow> bool" where
  "blank v = (v = EmptyStr \<or> v = Null \<or> v = Undefined)"

definition round2 :: "number \<Rightarrow> number" where
  "round2 n =
     (let x = n in
      if \<not> isFinite x then Fin 0
      else js_div (Math_round (js_mul (js_add x (Fin EPSILON)) (Fin 100))) (Fin 100))"

definition toNum :: "field \<Rightarrow> number" where
  "toNum v =
     (if blank v then Fin 0
      else (let n = Number v in if isFinite n then n else Fin 0))"

definition toNumOrNull :: "field \<Rightarrow> number option" where
  "toNumOrNull v =
     (if blank v then None
      else (let n = Number v in if isFinite n then Some n else None))"

text \<open>The finite value of a number (0 for the others); used to state results only.\<close>

fun valueOf :: "number \<Rightarrow> rat" where
  "valueOf (Fin q) = q"
| "valueOf x = 0"

section \<open>Constants\<close>

definition FIXED_ROC_PCT :: number where
  "FIXED_ROC_PCT = Fin (5 / 2)"

definition WEIGHT_GM_PER_LB :: number where
  "WEIGHT_GM_PER_LB = Fin (4536 / 10)"

definition PIECES_PER_DOZEN :: number where
  "PIECES_PER_DOZEN = Fin 12"

definition GM_PER_LB_PER_PIECE_IN_DOZEN :: number where
  "GM_PER_LB_PER_PIECE_IN_DOZEN = js_div WEIGHT_GM_PER_LB PIECES_PER_DOZEN"

definition GAUGE_OPTIONS :: "number list" where
  "GAUGE_OPTIONS = [Fin 3, Fin 5, Fin 7, Fin 12]"

definition DEFAULT_CURRENCY :: string where
  "DEFAULT_CURRENCY = ''$''"

section \<open>The wizard state and the formula engine\<close>

record blob =
  bytes :: "8 word list"
  mime :: string

record photo =
  blob :: "blob option"
  width :: "number option"
  height :: "number option"
  type :: string

record draft =
  styleName :: string
  yarnDesc :: string
  composition :: string
  gauge :: field
  weightGm :: field
  photo :: "photo option"
  currency :: string
  yarnPricePerLb :: field
  wastagePct :: field
  accessoriesCostDoz :: field
  fabricDoz :: field
  fabricCostDoz :: field
  fabricAttachCostDoz :: field
  timingMin :: field
  cmDoz :: field
  rocPct :: field

record snapshot =
  lbsPerDoz :: "number option"
  lbsWithWastage :: "number option"
  yarnCostDoz :: "number option"
  totalDoz :: number
  fobPerPc :: number
  finalPerPc :: number
  rocPct_used :: number

definition computeAll :: "draft \<Rightarrow> snapshot" where
  "computeAll s =
     (let weightGm' = toNum (weightGm s);
          wastagePct' = toNum (wastagePct s);
          yarnPricePerLb' = toNum (yarnPricePerLb s);
          lbsPerDoz' = (if js_less (Fin 0) weightGm'
                        then Some (js_div weightGm' GM_PER_LB_PER_PIECE_IN_DOZEN) else None);
          lbsWithWastage' = (case lbsPerDoz' of
                               Some l \<Rightarrow> Some (js_mul l (js_add (Fin 1) (js_div wastagePct' (Fin 100))))
                             | None \<Rightarrow> None);
          yarnCostDoz' = (case lbsWithWastage' of
                            Some l \<Rightarrow> Some (js_mul yarnPricePerLb' l)
                          | None \<Rightarrow> None);
          accessoriesCostDoz' = toNum (accessoriesCostDoz s);
          fabricDoz' = toNum (fabricDoz s);
          fabricCostDoz' = toNum (fabricCostDoz s);
          fabricAttachCostDoz' = toNum (fabricAttachCostDoz s);
          cmDoz' = toNum (cmDoz s);
          totalDoz' = js_add (js_add (js_add (js_add (js_add
                        (case yarnCostDoz' of Some y \<Rightarrow> y | None \<Rightarrow> Fin 0)
                        accessoriesCostDoz') fabricDoz') fabricCostDoz') fabricAttachCostDoz') cmDoz';
          fobPerPc' = round2 (js_div totalDoz' PIECES_PER_DOZEN);
          rocPct' = FIXED_ROC_PCT;
          finalPerPc' = round2 (js_mul fobPerPc' (js_add (Fin 1) (js_div rocPct' (Fin 100))))
      in \<lparr> lbsPerDoz = lbsPerDoz', lbsWithWastage = lbsWithWastage',
           yarnCostDoz = yarnCostDoz', totalDoz = totalDoz', fobPerPc = fobPerPc',
           finalPerPc = finalPerPc', rocPct_used = rocPct' \<rparr>)"

section \<open>Strings\<close>

text \<open>
  Strings are lists of characters.  \<open>trim\<close> removes white space at both ends;
  of the characters a \<open>char\<close> can hold, JavaScript counts as white space the tab,
  the line feed, the vertical tab, the form feed, the carriage return, the space and
  the no-break space.
\<close>

definition isWhiteSpace :: "char \<Rightarrow> bool" where
  "isWhiteSpace c = (c \<in> {CHR 0x09, CHR 0x0A, CHR 0x0B, CHR 0x0C, CHR 0x0D, CHR 0x20, CHR 0xA0})"

definition trim :: "string \<Rightarrow> string" where
  "trim str = rev (dropWhile isWhiteSpace (rev (dropWhile isWhiteSpace str)))"

text \<open>\<open>a || b\<close> on strings: the empty string is falsy.\<close>

definition str_or :: "string \<Rightarrow> string \<Rightarrow> string" where
  "str_or a b = (if a = [] then b else a)"

section \<open>Validation\<close>

datatype kind = K_style | K_number | K_moneyDoz | K_int | K_percent | K_computed | K_preview

record step =
  step_id :: string
  kind :: kind
  key :: "string option"
  required :: bool
  title :: string

text \<open>
  The result of \<open>validateStep\<close>: \<open>{ ok: true }\<close> or
  \<open>{ ok: false, message }\<close>.
\<close>

datatype verdict = OK | Fail string

fun ok :: "verdict \<Rightarrow> bool" where
  "ok OK = True"
| "ok (Fail m) = False"

definition isPercentValid :: "field \<Rightarrow> bool" where
  "isPercentValid x = (let n = Number x in isFinite n \<and> js_le (Fin 0) n \<and> js_le n (Fin 100))"

definition isNonNegativeNumber :: "field \<Rightarrow> bool" where
  "isNonNegativeNumber x = (let n = Number x in isFinite n \<and> js_le (Fin 0) n)"

text \<open>
  \<open>s[step.key]\<close>: the property of the wizard state a step's key names.  The keys of
  the step list name numeric fields only; any other name, and a missing key, reads
  \<open>undefined\<close>.
\<close>

definition property :: "string option \<Rightarrow> draft \<Rightarrow> field" where
  "property k s =
     (if k = Some ''gauge'' then gauge s
      else if k = Some ''weightGm'' then weightGm s
      else if k = Some ''yarnPricePerLb'' then yarnPricePerLb s
      else if k = Some ''wastagePct'' then wastagePct s
      else if k = Some ''accessoriesCostDoz'' then accessoriesCostDoz s
      else if k = Some ''fabricDoz'' then fabricDoz s
      else if k = Some ''fabricCostDoz'' then fabricCostDoz s
      else if k = Some ''fabricAttachCostDoz'' then fabricAttachCostDoz s
      else if k = Some ''timingMin'' then timingMin s
      else if k = Some ''cmDoz'' then cmDoz s
      else if k = Some ''rocPct'' then rocPct s
      else Undefined)"

text \<open>\<open>v ?? ''\<close>.\<close>

definition orEmpty :: "field \<Rightarrow> field" where
  "orEmpty v = (if v = Null \<or> v = Undefined then EmptyStr else v)"

definition validateStep :: "step \<Rightarrow> draft \<Rightarrow> verdict" where
  "validateStep step s =
     (if kind step = K_style then
        (if trim (styleName s) = [] then Fail ''Style Name is required.''
         else if trim (yarnDesc s) = [] then Fail ''Yarn Description is required.''
         else if (case photo s of None \<Rightarrow> True | Some p \<Rightarrow> blob p = None)
           then Fail ''Product Photo is required.''
         else if Number (gauge s) \<notin> set GAUGE_OPTIONS then Fail ''Please select a Gauge.''
         else if \<not> js_less (Fin 0) (toNum (weightGm s))
           then Fail ''Garment Weight (grams) must be greater than 0.''
         else OK)
      else if kind step = K_number \<or> kind step = K_moneyDoz \<or> kind step = K_int then
        (let v = orEmpty (property (key step) s) in
         if required step \<and> blank v then Fail (title step @ '' is required.'')
         else if blank v then OK
         else if \<not> isNonNegativeNumber v
           then Fail (title step @ '' must be a non-negative number.'')
         else if kind step = K_int \<and> \<not> isInteger (Number v)
           then Fail (title step @ '' must be a whole number.'')
         else OK)
      else if kind step = K_percent then
        (let v = orEmpty (property (key step) s) in
         if required step \<and> blank v then Fail (title step @ '' is required.'')
         else if blank v then OK
         else if \<not> isPercentValid v then Fail (title step @ '' must be between 0 and 100.'')
         else OK)
      else OK)"

section \<open>The step list\<close>

definition STEPS :: "step list" where
  "STEPS =
    [\<lparr> step_id = ''styleInfo'', kind = K_style, key = None, required = False,
         title = ''STEP 1: Basic Style Information'' \<rparr>,
     \<lparr> step_id = ''yarnPricePerLb'', kind = K_number, key = Some ''yarnPricePerLb'',
         required = True, title = ''Yarn price / LBS'' \<rparr>,
     \<lparr> step_id = ''weightGm'', kind = K_number, key = Some ''weightGm'', required = True,
         title = ''Garments Weight (grams)'' \<rparr>,
     \<lparr> step_id = ''lbsPerDoz'', kind = K_computed, key = None, required = False,
         title = ''Garments Weight (LBS / Doz)'' \<rparr>,
     \<lparr> step_id = ''wastagePct'', kind = K_percent, key = Some ''wastagePct'', required = True,
         title = ''Wastage %'' \<rparr>,
     \<lparr> step_id = ''lbsWithWastage'', kind = K_computed, key = None, required = False,
         title = ''Garments Weight LBS (Including Wastage @ %)'' \<rparr>,
     \<lparr> step_id = ''yarnCostDoz'', kind = K_computed, key = None, required = False,
         title = ''Yarn Cost'' \<rparr>,
     \<lparr> step_id = ''accessoriesCostDoz'', kind = K_moneyDoz, key = Some ''accessoriesCostDoz'',
         required = False, title = ''Accessories Cost'' \<rparr>,
     \<lparr> step_id = ''fabricDoz'', kind = K_moneyDoz, key = Some ''fabricDoz'', required = False,
         title = ''Fabric'' \<rparr>,
     \<lparr> step_id = ''fabricCostDoz'', kind = K_moneyDoz, key = Some ''fabricCostDoz'',
         required = False, title = ''Fabric Cost'' \<rparr>,
     \<lparr> step_id = ''fabricAttachCostDoz'', kind = K_moneyDoz, key = Some ''fabricAttachCostDoz'',
         required = False, title = ''Fabric Attachment CM'' \<rparr>,
     \<lparr> step_id = ''timingMin'', kind = K_int, key = Some ''timingMin'', required = False,
         title = ''Timing'' \<rparr>,
     \<lparr> step_id = ''cmDoz'', kind = K_moneyDoz, key = Some ''cmDoz'', required = True,
         title = ''CM'' \<rparr>,
     \<lparr> step_id = ''fobPerPc'', kind = K_computed, key = None, required = False,
         title = ''Costing price / FOB'' \<rparr>,
     \<lparr> step_id = ''rocPct'', kind = K_computed, key = None, required = False,
         title = ''Final (ROC 2.50%)'' \<rparr>,
     \<lparr> step_id = ''preview'', kind = K_preview, key = None, required = False,
         title = ''Preview & Calculate Final FOB'' \<rparr>]"

text \<open>\<open>STEPS[i]\<close>, which is \<open>undefined\<close> outside the list.\<close>

definition stepAt :: "int \<Rightarrow> step option" where
  "stepAt i = (if 0 \<le> i \<and> i < int (length STEPS) then Some (STEPS ! nat i) else None)"

text \<open>\<open>STEPS.find(s => s.id === name)\<close>.\<close>

definition findStep :: "string \<Rightarrow> step option" where
  "findStep name = find (\<lambda>st. step_id st = name) STEPS"

definition defaultWizardState :: draft where
  "defaultWizardState =
     \<lparr> styleName = [], yarnDesc = [], composition = [], gauge = Null, weightGm = EmptyStr,
       photo = None, currency = DEFAULT_CURRENCY, yarnPricePerLb = EmptyStr,
       wastagePct = Val 8, accessoriesCostDoz = Val 0, fabricDoz = Val 0, fabricCostDoz = Val 0,
       fabricAttachCostDoz = Val 0, timingMin = Val 0, cmDoz = Val 0,
       rocPct = Val (valueOf FIXED_ROC_PCT) \<rparr>"

section \<open>Committed records\<close>

record product_photo =
  p_blob :: "blob option"
  p_type :: string
  p_width :: "number option"
  p_height :: "number option"

record product_inputs =
  i_yarnPricePerLb :: number
  i_wastagePct :: number
  i_accessoriesCostDoz :: number
  i_fabricDoz :: number
  i_fabricCostDoz :: number
  i_fabricAttachCostDoz :: number
  i_timingMin :: number
  i_cmDoz :: number
  i_rocPct :: number

record product_computed =
  c_lbsPerDoz :: "number option"
  c_lbsWithWastage :: "number option"
  c_yarnCostDoz :: "number option"
  c_totalDoz :: number
  c_fobPerPc :: number
  c_finalPerPc :: number

record product =
  p_id :: string
  p_createdAt :: string
  p_updatedAt :: string
  p_appVersion :: string
  p_calcVersion :: string
  p_styleName :: string
  p_yarnDesc :: string
  p_composition :: string
  p_gauge :: number
  p_weightGm :: number
  p_currency :: string
  p_photo :: product_photo
  p_inputs :: product_inputs
  p_computed :: product_computed

definition APP_VERSION :: string where
  "APP_VERSION = ''2.0.0''"

definition CALC_VERSION :: string where
  "CALC_VERSION = ''factorySheet_v1''"

text \<open>\<open>n || null\<close> on a number that may be absent: 0 and NaN are falsy.\<close>

definition num_or_null :: "number option \<Rightarrow> number option" where
  "num_or_null w =
     (case w of None \<Rightarrow> None | Some n \<Rightarrow> (if n = Fin 0 \<or> n = NaN then None else Some n))"

section \<open>The application state and the persistence layer\<close>

text \<open>
  The two module variables of the wizard, the message shown in the wizard's error
  box, the record shown in the detail view, and the two object stores of the
  database: the draft slot (the \<open>data\<close> of the record with the fixed id, absent
  when there is none) and the stored products.
\<close>

record app =
  wizardState :: "draft option"
  wizardStepIndex :: int
  wizardError :: "string option"
  currentDetail :: "product option"
  dbDraft :: "draft option"
  dbProducts :: "product list"

text \<open>
  What the surroundings decide in one operation: whether the write of a product and
  the access to the draft slot succeed, the fresh id and the current time.
\<close>

record env =
  putSucceeds :: bool
  draftSucceeds :: bool
  uuid :: string
  now :: string

text \<open>
  \<open>GCDB.putProduct\<close>: one transaction on the product store, keyed by \<open>id\<close>.  It
  either stores the record, replacing one of the same id, or fails and stores nothing.
\<close>

definition putProduct :: "bool \<Rightarrow> product \<Rightarrow> product list \<Rightarrow> product list option" where
  "putProduct succeeds p db =
     (if succeeds then Some (p # filter (\<lambda>q. p_id q \<noteq> p_id p) db) else None)"

text \<open>\<open>loadDraft\<close>, \<open>saveDraft\<close> and \<open>clearDraft\<close> catch every failure.\<close>

definition loadDraft :: "env \<Rightarrow> app \<Rightarrow> draft option" where
  "loadDraft e st = (if draftSucceeds e then dbDraft st else None)"

definition saveDraft :: "env \<Rightarrow> draft option \<Rightarrow> app \<Rightarrow> app" where
  "saveDraft e state st = (if draftSucceeds e then st\<lparr> dbDraft := state \<rparr> else st)"

definition clearDraft :: "env \<Rightarrow> app \<Rightarrow> app" where
  "clearDraft e st = (if draftSucceeds e then st\<lparr> dbDraft := None \<rparr> else st)"

definition showWizardError :: "string \<Rightarrow> app \<Rightarrow> app" where
  "showWizardError msg st = st\<lparr> wizardError := Some msg \<rparr>"

definition clearWizardError :: "app \<Rightarrow> app" where
  "clearWizardError st = st\<lparr> wizardError := None \<rparr>"

text \<open>\<open>v.message || 'Please correct the input.'\<close>.\<close>

fun messageOf :: "verdict \<Rightarrow> string" where
  "messageOf (Fail m) = str_or m ''Please correct the input.''"
| "messageOf OK = ''Please correct the input.''"

section \<open>Saving a product from the wizard\<close>

definition requiredChecks :: "step list" where
  "requiredChecks =
     List.map_filter (\<lambda>x. x)
       [stepAt 0, findStep ''yarnPricePerLb'', findStep ''weightGm'', findStep ''wastagePct'',
        findStep ''cmDoz'', findStep ''rocPct'']"

text \<open>The loop over the required checks: the first verdict that is not ok, if any.\<close>

fun firstFailure :: "step list \<Rightarrow> draft \<Rightarrow> verdict option" where
  "firstFailure [] s = None"
| "firstFailure (st # rest) s =
     (let v = validateStep st s in if \<not> ok v then Some v else firstFailure rest s)"

definition buildProduct :: "env \<Rightarrow> draft \<Rightarrow> product" where
  "buildProduct e s =
     (let computed = computeAll s in
      \<lparr> p_id = uuid e, p_createdAt = now e, p_updatedAt = now e,
        p_appVersion = APP_VERSION, p_calcVersion = CALC_VERSION,
        p_styleName = trim (styleName s), p_yarnDesc = trim (yarnDesc s),
        p_composition = trim (composition s),
        p_gauge = Number (gauge s),
        p_weightGm = toNum (weightGm s),
        p_currency = trim (str_or (currency s) DEFAULT_CURRENCY),
        p_photo =
          \<lparr> p_blob = (case photo s of None \<Rightarrow> None | Some ph \<Rightarrow> blob ph),
            p_type = (case photo s of None \<Rightarrow> ''image/jpeg''
                      | Some ph \<Rightarrow> str_or (type ph) ''image/jpeg''),
            p_width = (case photo s of None \<Rightarrow> None | Some ph \<Rightarrow> num_or_null (width ph)),
            p_height = (case photo s of None \<Rightarrow> None | Some ph \<Rightarrow> num_or_null (height ph)) \<rparr>,
        p_inputs =
          \<lparr> i_yarnPricePerLb = toNum (yarnPricePerLb s),
            i_wastagePct = toNum (wastagePct s),
            i_accessoriesCostDoz = toNum (accessoriesCostDoz s),
            i_fabricDoz = toNum (fabricDoz s),
            i_fabricCostDoz = toNum (fabricCostDoz s),
            i_fabricAttachCostDoz = toNum (fabricAttachCostDoz s),
            i_timingMin = Math_trunc (toNum (timingMin s)),
            i_cmDoz = toNum (cmDoz s),
            i_rocPct = toNum (rocPct s) \<rparr>,
        p_computed =
          \<lparr> c_lbsPerDoz = lbsPerDoz computed,
            c_lbsWithWastage = lbsWithWastage computed,
            c_yarnCostDoz = yarnCostDoz computed,
            c_totalDoz = totalDoz computed,
            c_fobPerPc = fobPerPc computed,
            c_finalPerPc = finalPerPc computed \<rparr> \<rparr>)"

text \<open>
  \<open>calculateAndSave\<close>.  With no wizard state the first check throws a TypeError
  before anything is changed.  After a successful write the draft slot is cleared
  (a failure there is caught), the wizard variables are reset and the detail view is
  opened on the new record.
\<close>

definition calculateAndSave :: "env \<Rightarrow> app \<Rightarrow> app" where
  "calculateAndSave e st =
     (case wizardState st of
        None \<Rightarrow> st
      | Some s \<Rightarrow>
          (case firstFailure requiredChecks s of
             Some v \<Rightarrow> showWizardError (messageOf v) st
           | None \<Rightarrow>
               (let product = buildProduct e s in
                case putProduct (putSucceeds e) product (dbProducts st) of
                  None \<Rightarrow> showWizardError ''Could not save this costing. Please try again.'' st
                | Some db \<Rightarrow>
                    (clearDraft e (st\<lparr> dbProducts := db \<rparr>))
                      \<lparr> wizardState := None, wizardStepIndex := 0,
                        currentDetail := Some product \<rparr>)))"

section \<open>Wizard navigation\<close>

text \<open>
  \<open>wizardNext\<close>.  A step index outside the list, or a step that reads a field while
  there is no wizard state, throws a TypeError before anything is changed.
\<close>

definition wizardNext :: "env \<Rightarrow> app \<Rightarrow> app" where
  "wizardNext e st =
     (case stepAt (wizardStepIndex st) of
        None \<Rightarrow> st
      | Some step \<Rightarrow>
          (case wizardState st of
             None \<Rightarrow>
               (if kind step = K_computed then
                  saveDraft e None
                    ((clearWizardError st)
                       \<lparr> wizardStepIndex := min (int (length STEPS) - 1) (wizardStepIndex st + 1) \<rparr>)
                else if kind step = K_preview then clearWizardError st
                else st)
           | Some s \<Rightarrow>
               (let v = validateStep step s in
                if \<not> ok v then showWizardError (messageOf v) st
                else if kind step = K_preview then calculateAndSave e (clearWizardError st)
                else
                  saveDraft e (wizardState st)
                    ((clearWizardError st)
                       \<lparr> wizardStepIndex := min (int (length STEPS) - 1) (wizardStepIndex st + 1) \<rparr>))))"

definition wizardPrev :: "env \<Rightarrow> app \<Rightarrow> app" where
  "wizardPrev e st =
     saveDraft e (wizardState st)
       ((clearWizardError st) \<lparr> wizardStepIndex := max 0 (wizardStepIndex st - 1) \<rparr>)"

text \<open>The click on a row of the preview table, with the row's \<open>data-jump\<close> value.\<close>

definition jumpTo :: "int \<Rightarrow> app \<Rightarrow> app" where
  "jumpTo jump st =
     (clearWizardError st) \<lparr> wizardStepIndex := max 0 (min (int (length STEPS) - 1) jump) \<rparr>"

text \<open>
  \<open>openWizard({ resume, baseData })\<close>: the state is a copy of \<open>baseData\<close>, else of
  the stored draft when resuming, else the defaults; then the currency and the two
  percentages are completed.
\<close>

definition openWizard :: "env \<Rightarrow> bool \<Rightarrow> draft option \<Rightarrow> app \<Rightarrow> app" where
  "openWizard e resume baseData st =
     (let d = (if resume then loadDraft e st else None);
          s0 = (case baseData of Some b \<Rightarrow> b
                | None \<Rightarrow> (case d of Some x \<Rightarrow> x | None \<Rightarrow> defaultWizardState));
          s1 = s0\<lparr> currency := trim (str_or (currency s0) DEFAULT_CURRENCY) \<rparr>;
          s2 = (if blank (wastagePct s1) then s1\<lparr> wastagePct := Val 8 \<rparr> else s1);
          s3 = (if blank (rocPct s2) then s2\<lparr> rocPct := Val 0 \<rparr> else s2)
      in st\<lparr> wizardState := Some s3, wizardStepIndex := 0, wizardError := None \<rparr>)"

text \<open>A user action on the wizard, and a run of actions.\<close>

datatype action = Next env | Prev env | Jump int

fun act :: "action \<Rightarrow> app \<Rightarrow> app" where
  "act (Next e) st = wizardNext e st"
| "act (Prev e) st = wizardPrev e st"
| "act (Jump j) st = jumpTo j st"

fun run :: "action list \<Rightarrow> app \<Rightarrow> app" where
  "run [] st = st"
| "run (a # rest) st = run rest (act a st)"

text \<open>The step index names a step of the list.\<close>

definition inRange :: "app \<Rightarrow> bool" where
  "inRange st = (0 \<le> wizardStepIndex st \<and> wizardStepIndex st < int (length STEPS))"

section \<open>Sample inputs\<close>

text \<open>
  Concrete surroundings, a filled-in wizard state (the inputs of scenario A with style
  data and a photo) and an application state around a given wizard state, used to
  instantiate the theorems below.
\<close>

abbreviation sampleEnv :: "bool \<Rightarrow> env" where
  "sampleEnv putOk \<equiv> \<lparr> putSucceeds = putOk, draftSucceeds = True, uuid = ''id-1'', now = ''2024-01-01T00:00:00.000Z'' \<rparr>"

abbreviation sampleDraft :: draft where
  "sampleDraft \<equiv>
     \<lparr> styleName = ''1683N'', yarnDesc = ''2/30Nm'', composition = [], gauge = Val 7,
       weightGm = Val 378,
       photo = Some \<lparr> blob = Some \<lparr> bytes = [255, 216, 255], mime = ''image/jpeg'' \<rparr>,
                      width = Some (Fin 2), height = Some (Fin 1), type = ''image/jpeg'' \<rparr>,
       currency = ''$'', yarnPricePerLb = Val 2, wastagePct = Val 5,
       accessoriesCostDoz = Val 3, fabricDoz = Val 0, fabricCostDoz = Val 0,
       fabricAttachCostDoz = Val 0, timingMin = Val 0, cmDoz = Val 6, rocPct = Val (5 / 2) \<rparr>"

abbreviation sampleApp :: "draft \<Rightarrow> int \<Rightarrow> app" where
  "sampleApp d i \<equiv>
     \<lparr> wizardState = Some d, wizardStepIndex = i, wizardError = None, currentDetail = None,
       dbDraft = Some d, dbProducts = [] \<rparr>"

section \<open>Base64 and data URLs\<close>

text \<open>
  The backup code relies on three functions of the browser: \<open>FileReader.readAsDataURL\<close>
  (base64 with padding, after the prefix \<open>data:<type>;base64,\<close>), \<open>atob\<close> (the
  forgiving base64 decoding of the HTML standard) and the \<open>Blob\<close> constructor.  They
  are modelled here after their standards.  \<open>b64char\<close> and \<open>b64val\<close> are the
  base64 alphabet and its inverse.
\<close>

definition b64char :: "nat \<Rightarrow> char" where
  "b64char n =
     char_of (if n < 26 then 65 + n else if n < 52 then 71 + n else if n < 62 then n - 4
              else if n = 62 then 43 else 47)"

definition b64val :: "char \<Rightarrow> nat option" where
  "b64val c =
     (let n = (of_char c :: nat) in
      if 65 \<le> n \<and> n \<le> 90 then Some (n - 65)
      else if 97 \<le> n \<and> n \<le> 122 then Some (n - 71)
      else if 48 \<le> n \<and> n \<le> 57 then Some (n + 4)
      else if n = 43 then Some 62
      else if n = 47 then Some 63
      else None)"

text \<open>The base64 text of a byte sequence, three bytes to four characters.\<close>

fun base64 :: "8 word list \<Rightarrow> string" where
  "base64 [] = []"
| "base64 [a] =
     (let x = unat a in
      [b64char (x div 4), b64char ((x mod 4) * 16), CHR ''='', CHR ''=''])"
| "base64 [a, b] =
     (let x = unat a; y = unat b in
      [b64char (x div 4), b64char ((x mod 4) * 16 + y div 16), b64char ((y mod 16) * 4),
       CHR ''=''])"
| "base64 (a # b # c # rest) =
     (let x = unat a; y = unat b; z = unat c in
      [b64char (x div 4), b64char ((x mod 4) * 16 + y div 16),
       b64char ((y mod 16) * 4 + z div 64), b64char (z mod 64)] @ base64 rest)"

text \<open>
  \<open>atob\<close>: remove ASCII white space; if the length is a multiple of 4, remove one or
  two \<open>=\<close> at the end; fail if the length is then 1 modulo 4 or a character is outside
  the alphabet; decode six bits per character and drop the bits left over.  The result
  is a string of characters with codes below 256; \<open>None\<close> is the
  InvalidCharacterError.
\<close>

definition isAsciiWhitespace :: "char \<Rightarrow> bool" where
  "isAsciiWhitespace c = (c \<in> {CHR 0x09, CHR 0x0A, CHR 0x0C, CHR 0x0D, CHR 0x20})"

definition stripEquals :: "string \<Rightarrow> string" where
  "stripEquals d = (if d \<noteq> [] \<and> last d = CHR ''='' then butlast d else d)"

fun decodeSextets :: "nat list \<Rightarrow> string" where
  "decodeSextets (s1 # s2 # s3 # s4 # rest) =
     [char_of (s1 * 4 + s2 div 16), char_of ((s2 mod 16) * 16 + s3 div 4),
      char_of ((s3 mod 4) * 64 + s4)] @ decodeSextets rest"
| "decodeSextets [s1, s2, s3] =
     [char_of (s1 * 4 + s2 div 16), char_of ((s2 mod 16) * 16 + s3 div 4)]"
| "decodeSextets [s1, s2] = [char_of (s1 * 4 + s2 div 16)]"
| "decodeSextets [s1] = []"
| "decodeSextets [] = []"

definition atob :: "string \<Rightarrow> string option" where
  "atob input =
     (let d0 = filter (\<lambda>c. \<not> isAsciiWhitespace c) input;
          d = (if length d0 mod 4 = 0 then stripEquals (stripEquals d0) else d0)
      in if length d mod 4 = 1 then None
         else (case those (map b64val d) of
                 None \<Rightarrow> None
               | Some sextets \<Rightarrow> Some (decodeSextets sextets)))"

text \<open>
  The six-bit values and the padding that \<open>base64\<close> writes, used to state how the
  encoder and the decoder fit together.
\<close>

fun sextets :: "8 word list \<Rightarrow> nat list" where
  "sextets [] = []"
| "sextets [a] = (let x = unat a in [x div 4, (x mod 4) * 16])"
| "sextets [a, b] =
     (let x = unat a; y = unat b in [x div 4, (x mod 4) * 16 + y div 16, (y mod 16) * 4])"
| "sextets (a # b # c # rest) =
     (let x = unat a; y = unat b; z = unat c in
      [x div 4, (x mod 4) * 16 + y div 16, (y mod 16) * 4 + z div 64, z mod 64] @ sextets rest)"

fun padding :: "8 word list \<Rightarrow> string" where
  "padding [] = []"
| "padding [a] = ''==''"
| "padding [a, b] = ''=''"
| "padding (a # b # c # rest) = padding rest"

text \<open>
  \<open>str.split(',')\<close>, a test for a prefix, and the regular expression
  \<open>/data:(.*?);base64/\<close>: \<open>matchDataUrl\<close> is the first capture group of the
  leftmost match, where the dot matches no line terminator and the group is as short as
  possible.
\<close>

fun splitOn :: "char \<Rightarrow> string \<Rightarrow> string list" where
  "splitOn sep [] = [[]]"
| "splitOn sep (c # cs) =
     (if c = sep then [] # splitOn sep cs
      else (case splitOn sep cs of [] \<Rightarrow> [[c]] | p # ps \<Rightarrow> (c # p) # ps))"

definition startsWith :: "string \<Rightarrow> string \<Rightarrow> bool" where
  "startsWith pat str = (take (length pat) str = pat)"

definition isLineTerminator :: "char \<Rightarrow> bool" where
  "isLineTerminator c = (c = CHR 0x0A \<or> c = CHR 0x0D)"

fun lazyUpTo :: "string \<Rightarrow> string \<Rightarrow> string option" where
  "lazyUpTo pat [] = (if pat = [] then Some [] else None)"
| "lazyUpTo pat (c # cs) =
     (if startsWith pat (c # cs) then Some []
      else if isLineTerminator c then None
      else map_option ((#) c) (lazyUpTo pat cs))"

fun matchDataUrl :: "string \<Rightarrow> string option" where
  "matchDataUrl [] = None"
| "matchDataUrl (c # cs) =
     (if startsWith ''data:'' (c # cs) then
        (case lazyUpTo '';base64'' (drop 5 (c # cs)) of
           Some m \<Rightarrow> Some m
         | None \<Rightarrow> matchDataUrl cs)
      else matchDataUrl cs)"

text \<open>
  \<open>new Blob([buf], { type })\<close>: a type with a character outside U+0020 to U+007E is
  replaced by the empty string, any other is converted to lower case.
\<close>

definition toLowerAscii :: "char \<Rightarrow> char" where
  "toLowerAscii c =
     (if 65 \<le> (of_char c :: nat) \<and> (of_char c :: nat) \<le> 90 then char_of (of_char c + 32 :: nat) else c)"

definition blobType :: "string \<Rightarrow> string" where
  "blobType t =
     (if \<exists>c \<in> set t. (of_char c :: nat) < 0x20 \<or> 0x7E < (of_char c :: nat) then []
      else map toLowerAscii t)"

definition newBlob :: "8 word list \<Rightarrow> string \<Rightarrow> blob" where
  "newBlob buf t = \<lparr> bytes = buf, mime = blobType t \<rparr>"

text \<open>
  \<open>blobToDataUrl\<close> reads the blob with \<open>FileReader.readAsDataURL\<close>; browsers
  write \<open>application/octet-stream\<close> for a blob with an empty type.
\<close>

definition blobToDataUrl :: "blob \<Rightarrow> string" where
  "blobToDataUrl b =
     ''data:'' @ (if mime b = [] then ''application/octet-stream'' else mime b) @ '';base64,''
       @ base64 (bytes b)"

text \<open>
  \<open>dataUrlToBlob\<close>.  The two first pieces of the split are \<open>meta\<close> and \<open>b64\<close>;
  a missing second piece is \<open>undefined\<close>, which \<open>atob\<close> reads as the text
  \<open>undefined\<close>.  \<open>None\<close> is the exception thrown by \<open>atob\<close>.
\<close>

definition dataUrlToBlob :: "string \<Rightarrow> blob option" where
  "dataUrlToBlob dataUrl =
     (case splitOn CHR '','' dataUrl of
        [] \<Rightarrow> None
      | meta # rest \<Rightarrow>
          (let b64 = (case rest of [] \<Rightarrow> ''undefined'' | x # xs \<Rightarrow> x);
               mime = (case matchDataUrl meta of
                         None \<Rightarrow> ''application/octet-stream''
                       | Some m \<Rightarrow> str_or m ''application/octet-stream'')
           in case atob b64 of
                None \<Rightarrow> None
              | Some bin \<Rightarrow> Some (newBlob (map (\<lambda>c. of_nat (of_char c)) bin) mime)))"

text \<open>
  A media type that survives the data URL: not empty, already in the form the
  \<open>Blob\<close> constructor gives a type, and free of commas and semicolons.
\<close>

definition plainMime :: "string \<Rightarrow> bool" where
  "plainMime m = (m \<noteq> [] \<and> blobType m = m \<and> CHR '','' \<notin> set m \<and> CHR '';'' \<notin> set m)"

section \<open>Backup and restore\<close>

text \<open>
  The backup code handles stored records as plain JavaScript objects.  \<open>jsv\<close> is a
  JavaScript value: \<open>undefined\<close>, \<open>null\<close>, a boolean, a number, a string, a
  blob, an array or an object with its properties in order.  \<open>json\<close> is what
  \<open>JSON.parse\<close> can return: no \<open>undefined\<close>, no blob, finite numbers only.
\<close>

datatype jsv = Undef | Nul | Boolean bool | Num number | Str string | BlobV blob
  | Arr "jsv list" | Obj "(string \<times> jsv) list"

datatype json = JNull | JBool bool | JNum rat | JStr string
  | JArr "json list" | JObj "(string \<times> json) list"

text \<open>The outcome of a function that may throw.\<close>

datatype 'a result = Throws | Returns 'a

text \<open>
  \<open>toJSON v\<close> is \<open>JSON.parse(JSON.stringify(v))\<close>: a property whose value is
  \<open>undefined\<close> is left out, \<open>undefined\<close> in an array and a number that is not
  finite become \<open>null\<close>, a blob becomes the empty object.  \<open>None\<close> stands for
  \<open>undefined\<close>, for which \<open>JSON.stringify\<close> writes nothing.  \<open>fromJSON\<close>
  is the parsed value as a JavaScript value (also what \<open>structuredClone\<close> returns
  for it).
\<close>

definition dropUndefined :: "(string \<times> json option) list \<Rightarrow> (string \<times> json) list" where
  "dropUndefined kvs = List.map_filter (\<lambda>(k, v). map_option (Pair k) v) kvs"

definition nullIfUndefined :: "json option \<Rightarrow> json" where
  "nullIfUndefined v = (case v of None \<Rightarrow> JNull | Some j \<Rightarrow> j)"

primrec toJSON :: "jsv \<Rightarrow> json option" where
  "toJSON Undef = None"
| "toJSON Nul = Some JNull"
| "toJSON (Boolean b) = Some (JBool b)"
| "toJSON (Num n) = Some (case n of Fin q \<Rightarrow> JNum q | PosInf \<Rightarrow> JNull | NegInf \<Rightarrow> JNull | NaN \<Rightarrow> JNull)"
| "toJSON (Str s) = Some (JStr s)"
| "toJSON (BlobV b) = Some (JObj [])"
| "toJSON (Arr vs) = Some (JArr (map nullIfUndefined (map toJSON vs)))"
| "toJSON (Obj kvs) = Some (JObj (dropUndefined (map (map_prod id toJSON) kvs)))"

primrec fromJSON :: "json \<Rightarrow> jsv" where
  "fromJSON JNull = Nul"
| "fromJSON (JBool b) = Boolean b"
| "fromJSON (JNum q) = Num (Fin q)"
| "fromJSON (JStr s) = Str s"
| "fromJSON (JArr js) = Arr (map fromJSON js)"
| "fromJSON (JObj kvs) = Obj (map (map_prod id fromJSON) kvs)"

text \<open>Truthiness, \<open>a || b\<close>, \<open>v.k\<close>, \<open>v?.k\<close> and \<open>{...p, k: v}\<close>.\<close>

fun truthy :: "jsv \<Rightarrow> bool" where
  "truthy Undef = False"
| "truthy Nul = False"
| "truthy (Boolean b) = b"
| "truthy (Num n) = (n \<noteq> Fin 0 \<and> n \<noteq> NaN)"
| "truthy (Str s) = (s \<noteq> [])"
| "truthy (BlobV b) = True"
| "truthy (Arr vs) = True"
| "truthy (Obj kvs) = True"

definition js_or :: "jsv \<Rightarrow> jsv \<Rightarrow> jsv" where
  "js_or a b = (if truthy a then a else b)"

fun getProp :: "string \<Rightarrow> jsv \<Rightarrow> jsv" where
  "getProp k (Obj kvs) = (case map_of kvs k of None \<Rightarrow> Undef | Some v \<Rightarrow> v)"
| "getProp k v = Undef"

definition optProp :: "string \<Rightarrow> jsv \<Rightarrow> jsv" where
  "optProp k v = (if v = Nul \<or> v = Undef then Undef else getProp k v)"

definition setProp :: "string \<Rightarrow> jsv \<Rightarrow> (string \<times> jsv) list \<Rightarrow> (string \<times> jsv) list" where
  "setProp k v kvs =
     (if k \<in> fst ` set kvs then map (\<lambda>(k', x). if k' = k then (k', v) else (k', x)) kvs
      else kvs @ [(k, v)])"

text \<open>
  The body of the loop of \<open>exportBackup\<close> for one stored record \<open>p\<close>, given by
  its properties.  Reading something that is not a blob with the file reader throws.
\<close>

definition exportItem :: "(string \<times> jsv) list \<Rightarrow> jsv result" where
  "exportItem p =
     (let photo' = getProp ''photo'' (Obj p);
          blob' = optProp ''blob'' photo'
      in if truthy blob' then
           (case blob' of
              BlobV b \<Rightarrow>
                (let photoBase64 = blobToDataUrl b;
                     photoType = js_or (getProp ''type'' photo') (Str ''image/jpeg'')
                 in Returns (Obj (setProp ''photo''
                      (if photoBase64 \<noteq> [] then
                         Obj [(''base64'', Str photoBase64), (''type'', photoType),
                              (''width'', getProp ''width'' photo'),
                              (''height'', getProp ''height'' photo')]
                       else Nul) p)))
            | _ \<Rightarrow> Throws)
         else Returns (Obj (setProp ''photo'' Nul p)))"

text \<open>The results of a loop that stops at the first exception.\<close>

fun collect :: "'a result list \<Rightarrow> 'a list result" where
  "collect [] = Returns []"
| "collect (Throws # rs) = Throws"
| "collect (Returns x # rs) = (case collect rs of Throws \<Rightarrow> Throws | Returns xs \<Rightarrow> Returns (x # xs))"

text \<open>\<open>exportBackup\<close>: the payload that is written to the file as JSON.\<close>

definition exportBackup :: "string \<Rightarrow> (string \<times> jsv) list list \<Rightarrow> jsv result" where
  "exportBackup exportedAt items =
     (case collect (map exportItem items) of
        Throws \<Rightarrow> Throws
      | Returns exported \<Rightarrow>
          Returns (Obj [(''schema'', Str ''garment-costing-backup-v2''),
                        (''exportedAt'', Str exportedAt),
                        (''appVersion'', Str APP_VERSION),
                        (''calcVersion'', Str CALC_VERSION),
                        (''items'', Arr exported)]))"

text \<open>
  \<open>String(v)\<close>: the string itself for a string; the conversion of any other value
  is left to the parameter \<open>other\<close>.
\<close>

definition String' :: "(jsv \<Rightarrow> string) \<Rightarrow> jsv \<Rightarrow> string" where
  "String' other v = (case v of Str s \<Rightarrow> s | _ \<Rightarrow> other v)"

text \<open>
  The body of the loop of \<open>importBackup\<close> for one item of the file: reading a
  property of \<open>null\<close> throws, and so does \<open>atob\<close> on text that is not base64.
\<close>

definition importItem :: "(jsv \<Rightarrow> string) \<Rightarrow> json \<Rightarrow> jsv result" where
  "importItem other raw =
     (let p = fromJSON raw in
      if p = Nul then Throws
      else
        (let photo' = getProp ''photo'' p;
             base64 = optProp ''base64'' photo'
         in if truthy base64 then
              (case dataUrlToBlob (String' other base64) of
                 None \<Rightarrow> Throws
               | Some blob' \<Rightarrow>
                   (case p of
                      Obj kvs \<Rightarrow>
                        Returns (Obj (setProp ''photo''
                          (Obj [(''blob'', BlobV blob'),
                                (''type'', js_or (getProp ''type'' photo') (Str ''image/jpeg'')),
                                (''width'', js_or (getProp ''width'' photo') Nul),
                                (''height'', js_or (getProp ''height'' photo') Nul)]) kvs))
                    | _ \<Rightarrow> Returns p))
            else Returns p))"

text \<open>
  \<open>importBackup\<close> on the parsed content of the file: \<open>Returns None\<close> is the
  alert 'Invalid backup file.', \<open>Returns (Some products)\<close> the list handed to
  \<open>GCDB.bulkPut\<close>.
\<close>

definition importBackup :: "(jsv \<Rightarrow> string) \<Rightarrow> json \<Rightarrow> jsv list option result" where
  "importBackup other data =
     (case data of
        JObj kvs \<Rightarrow>
          (case map_of kvs ''items'' of
             Some (JArr raws) \<Rightarrow>
               (case collect (map (importItem other) raws) of
                  Throws \<Rightarrow> Throws
                | Returns products \<Rightarrow> Returns (Some products))
           | _ \<Rightarrow> Returns None)
      | _ \<Rightarrow> Returns None)"

text \<open>
  The object that \<open>calculateAndSave\<close> builds and stores, property by property in
  the order of the source.
\<close>

definition nullable :: "number option \<Rightarrow> jsv" where
  "nullable n = (case n of None \<Rightarrow> Nul | Some x \<Rightarrow> Num x)"

definition toObject :: "product \<Rightarrow> (string \<times> jsv) list" where
  "toObject p =
     [(''id'', Str (p_id p)), (''createdAt'', Str (p_createdAt p)),
      (''updatedAt'', Str (p_updatedAt p)), (''appVersion'', Str (p_appVersion p)),
      (''calcVersion'', Str (p_calcVersion p)), (''styleName'', Str (p_styleName p)),
      (''yarnDesc'', Str (p_yarnDesc p)), (''composition'', Str (p_composition p)),
      (''gauge'', Num (p_gauge p)), (''weightGm'', Num (p_weightGm p)),
      (''currency'', Str (p_currency p)),
      (''photo'',
         Obj [(''blob'', (case p_blob (p_photo p) of None \<Rightarrow> Nul | Some b \<Rightarrow> BlobV b)),
              (''type'', Str (p_type (p_photo p))),
              (''width'', nullable (p_width (p_photo p))),
              (''height'', nullable (p_height (p_photo p)))]),
      (''inputs'',
         Obj [(''yarnPricePerLb'', Num (i_yarnPricePerLb (p_inputs p))),
              (''wastagePct'', Num (i_wastagePct (p_inputs p))),
              (''accessoriesCostDoz'', Num (i_accessoriesCostDoz (p_inputs p))),
              (''fabricDoz'', Num (i_fabricDoz (p_inputs p))),
              (''fabricCostDoz'', Num (i_fabricCostDoz (p_inputs p))),
              (''fabricAttachCostDoz'', Num (i_fabricAttachCostDoz (p_inputs p))),
              (''timingMin'', Num (i_timingMin (p_inputs p))),
              (''cmDoz'', Num (i_cmDoz (p_inputs p))),
              (''rocPct'', Num (i_rocPct (p_inputs p)))]),
      (''computed'',
         Obj [(''lbsPerDoz'', nullable (c_lbsPerDoz (p_computed p))),
              (''lbsWithWastage'', nullable (c_lbsWithWastage (p_computed p))),
              (''yarnCostDoz'', nullable (c_yarnCostDoz (p_computed p))),
              (''totalDoz'', Num (c_totalDoz (p_computed p))),
              (''fobPerPc'', Num (c_fobPerPc (p_computed p))),
              (''finalPerPc'', Num (c_finalPerPc (p_computed p)))])]"

text \<open>
  Exporting the stored records, writing the payload as JSON, parsing the file and
  importing it.
\<close>

definition exportThenImport ::
    "(jsv \<Rightarrow> string) \<Rightarrow> string \<Rightarrow> (string \<times> jsv) list list \<Rightarrow> jsv list option result" where
  "exportThenImport other exportedAt items =
     (case exportBackup exportedAt items of
        Throws \<Rightarrow> Throws
      | Returns payload \<Rightarrow>
          (case toJSON payload of
             None \<Rightarrow> Throws
           | Some file \<Rightarrow> importBackup other file))"

text \<open>
  Values that JSON keeps as they are, and the records for which the round trip is
  proved below: every number finite, a photo with a blob of a plain media type, a
  non-empty photo type, and dimensions that are absent or finite and not zero.
  \<open>exportedPhoto\<close> is the photo entry of such a record in the backup.
\<close>

primrec jsonSafe :: "jsv \<Rightarrow> bool" where
  "jsonSafe Undef = False"
| "jsonSafe Nul = True"
| "jsonSafe (Boolean b) = True"
| "jsonSafe (Num n) = isFinite n"
| "jsonSafe (Str s) = True"
| "jsonSafe (BlobV b) = False"
| "jsonSafe (Arr vs) = list_all id (map jsonSafe vs)"
| "jsonSafe (Obj kvs) = list_all snd (map (map_prod id jsonSafe) kvs)"

definition finiteOrNull :: "number option \<Rightarrow> bool" where
  "finiteOrNull x = (case x of None \<Rightarrow> True | Some n \<Rightarrow> isFinite n)"

definition dimension :: "number option \<Rightarrow> bool" where
  "dimension x = (case x of None \<Rightarrow> True | Some n \<Rightarrow> isFinite n \<and> n \<noteq> Fin 0)"

definition exportable :: "product \<Rightarrow> bool" where
  "exportable p =
     (isFinite (p_gauge p) \<and> isFinite (p_weightGm p) \<and>
      (case p_blob (p_photo p) of None \<Rightarrow> False | Some b \<Rightarrow> plainMime (mime b)) \<and>
      p_type (p_photo p) \<noteq> [] \<and>
      dimension (p_width (p_photo p)) \<and> dimension (p_height (p_photo p)) \<and>
      isFinite (i_yarnPricePerLb (p_inputs p)) \<and> isFinite (i_wastagePct (p_inputs p)) \<and>
      isFinite (i_accessoriesCostDoz (p_inputs p)) \<and> isFinite (i_fabricDoz (p_inputs p)) \<and>
      isFinite (i_fabricCostDoz (p_inputs p)) \<and> isFinite (i_fabricAttachCostDoz (p_inputs p)) \<and>
      isFinite (i_timingMin (p_inputs p)) \<and> isFinite (i_cmDoz (p_inputs p)) \<and>
      isFinite (i_rocPct (p_inputs p)) \<and>
      finiteOrNull (c_lbsPerDoz (p_computed p)) \<and>
      finiteOrNull (c_lbsWithWastage (p_computed p)) \<and>
      finiteOrNull (c_yarnCostDoz (p_computed p)) \<and>
      isFinite (c_totalDoz (p_computed p)) \<and> isFinite (c_fobPerPc (p_computed p)) \<and>
      isFinite (c_finalPerPc (p_computed p)))"

definition exportedPhoto :: "product \<Rightarrow> blob \<Rightarrow> jsv" where
  "exportedPhoto p b =
     Obj [(''base64'', Str (blobToDataUrl b)), (''type'', Str (p_type (p_photo p))),
          (''width'', nullable (p_width (p_photo p))),
          (''height'', nullable (p_height (p_photo p)))]"

section \<open>Facts about the number model\<close>

lemma DBL_LIMIT_pos: "0 < DBL_LIMIT"
  by (simp add: DBL_LIMIT_def)

lemma DBL_LIMIT_big: "1000000000 < DBL_LIMIT"
  by (simp add: DBL_LIMIT_def)

lemma fromExact_in_range: "\<bar>q\<bar> < DBL_LIMIT \<Longrightarrow> fromExact q = Fin q"
  by (auto simp: fromExact_def)

lemma fromExact_small: "\<bar>q\<bar> \<le> 1000000000 \<Longrightarrow> fromExact q = Fin q"
  using DBL_LIMIT_big by (intro fromExact_in_range) linarith

lemma fromExact_Fin_iff: "fromExact q = Fin r \<longleftrightarrow> r = q \<and> \<bar>q\<bar> < DBL_LIMIT"
  using DBL_LIMIT_pos by (auto simp: fromExact_def)

lemma toNum_cases:
  obtains q where "toNum v = Fin q" "\<bar>q\<bar> < DBL_LIMIT"
proof (cases "blank v")
  case True
  then have "toNum v = Fin 0" by (simp add: toNum_def)
  then show ?thesis using that DBL_LIMIT_pos by simp
next
  case False
  show ?thesis
  proof (cases "Number v")
    case (Fin q)
    then have *: "toNum v = Fin q" using False by (simp add: toNum_def)
    have "\<bar>q\<bar> < DBL_LIMIT"
      using Fin DBL_LIMIT_pos by (cases v) (auto simp: fromExact_def split: if_splits)
    then show ?thesis using that * by simp
  next
    case PosInf
    then have "toNum v = Fin 0" using False by (simp add: toNum_def)
    then show ?thesis using that DBL_LIMIT_pos by simp
  next
    case NegInf
    then have "toNum v = Fin 0" using False by (simp add: toNum_def)
    then show ?thesis using that DBL_LIMIT_pos by simp
  next
    case NaN
    then have "toNum v = Fin 0" using False by (simp add: toNum_def)
    then show ?thesis using that DBL_LIMIT_pos by simp
  qed
qed

lemma toNum_Fin: "toNum v = Fin (valueOf (toNum v))"
  by (rule toNum_cases [of v]) simp

lemma toNum_range: "\<bar>valueOf (toNum v)\<bar> < DBL_LIMIT"
  by (rule toNum_cases [of v]) simp

lemma GM_value: "GM_PER_LB_PER_PIECE_IN_DOZEN = Fin (378 / 10)"
  by (simp add: GM_PER_LB_PER_PIECE_IN_DOZEN_def WEIGHT_GM_PER_LB_def PIECES_PER_DOZEN_def
      fromExact_small)

lemma roc_factor: "js_add (Fin 1) (js_div FIXED_ROC_PCT (Fin 100)) = Fin (1025 / 1000)"
  by (simp add: FIXED_ROC_PCT_def fromExact_small)

lemma floor_rat_numeral_div:
  "\<lfloor>(numeral a :: rat) / numeral b\<rfloor> = numeral a div numeral b"
  by (metis floor_divide_of_int_eq of_int_numeral)

lemma floor_rat_neg_numeral_div:
  "\<lfloor>- (numeral a :: rat) / numeral b\<rfloor> = - numeral a div numeral b"
  by (metis floor_divide_of_int_eq of_int_neg_numeral of_int_numeral)

lemma lbs_in_range: "\<bar>q\<bar> < DBL_LIMIT \<Longrightarrow> fromExact (q * 5 / 189) = Fin (q * 5 / 189)"
proof (rule fromExact_in_range)
  assume a: "\<bar>q\<bar> < DBL_LIMIT"
  have "\<bar>q * 5 / 189\<bar> = \<bar>q\<bar> * (5 / 189)" by (simp add: abs_mult)
  also have "\<dots> \<le> \<bar>q\<bar> * 1" by (intro mult_left_mono) simp_all
  finally have "\<bar>q * 5 / 189\<bar> \<le> \<bar>q\<bar>" by simp
  then show "\<bar>q * 5 / 189\<bar> < DBL_LIMIT" using a by (rule le_less_trans)
qed

lemma floor_bounds:
  fixes y :: rat
  shows "of_int \<lfloor>y\<rfloor> \<le> y" and "y < of_int \<lfloor>y\<rfloor> + 1"
  using floor_correct [of y] by simp_all

lemma abs_scale_le:
  fixes q :: rat
  shows "\<bar>q / 100\<bar> \<le> \<bar>q\<bar>"
proof -
  have "\<bar>q / 100\<bar> = \<bar>q\<bar> * (1 / 100)" by simp
  also have "\<dots> \<le> \<bar>q\<bar> * 1" by (intro mult_left_mono) simp_all
  finally show ?thesis by simp
qed

lemma abs_scale_ge:
  fixes q :: rat
  shows "\<bar>q\<bar> \<le> \<bar>q * 100\<bar>"
proof -
  have "\<bar>q\<bar> * 1 \<le> \<bar>q\<bar> * 100" by (intro mult_left_mono) simp_all
  then show ?thesis by (simp add: abs_mult)
qed

lemma round2_Fin:
  assumes "\<bar>(x + EPSILON) * 100\<bar> + 1 < DBL_LIMIT"
  shows "round2 (Fin x) = Fin (of_int \<lfloor>(x + EPSILON) * 100 + 1 / 2\<rfloor> / 100)"
proof -
  let ?y = "(x + EPSILON) * 100"
  let ?k = "\<lfloor>?y + 1 / 2\<rfloor>"
  have y: "\<bar>?y\<bar> < DBL_LIMIT" using assms by linarith
  have xe: "\<bar>x + EPSILON\<bar> < DBL_LIMIT"
    using abs_scale_ge [of "x + EPSILON"] y by (rule le_less_trans)
  have "\<bar>(of_int ?k :: rat)\<bar> \<le> \<bar>?y\<bar> + 1"
    using floor_bounds [of "?y + 1 / 2"] by linarith
  then have kk: "\<bar>(of_int ?k :: rat)\<bar> < DBL_LIMIT" using assms by linarith
  have k100: "\<bar>(of_int ?k :: rat) / 100\<bar> < DBL_LIMIT"
    using abs_scale_le [of "of_int ?k"] kk by (rule le_less_trans)
  have d: "js_div (Fin a) (Fin 100) = fromExact (a / 100)" for a by simp
  have "round2 (Fin x) = js_div (Math_round (js_mul (js_add (Fin x) (Fin EPSILON)) (Fin 100))) (Fin 100)"
    by (simp only: round2_def Let_def isFinite.simps not_True_eq_False if_False)
  also have "js_add (Fin x) (Fin EPSILON) = Fin (x + EPSILON)"
    by (simp only: js_add.simps fromExact_in_range [OF xe])
  also have "js_mul (Fin (x + EPSILON)) (Fin 100) = Fin ?y"
    by (simp only: js_mul.simps fromExact_in_range [OF y])
  also have "Math_round (Fin ?y) = Fin (of_int ?k)"
    by (simp only: Math_round.simps)
  also have "js_div (Fin (of_int ?k)) (Fin 100) = Fin (of_int ?k / 100)"
    by (simp only: d fromExact_in_range [OF k100])
  finally show ?thesis .
qed

lemma floor_int_plus_small:
  fixes e :: rat
  assumes "0 \<le> e" "e < 1 / 2"
  shows "\<lfloor>of_int k + e + 1 / 2\<rfloor> = k"
  by (rule floor_unique) (use assms in simp_all)

lemma MAX_VALUE_gap: "MAX_VALUE + 3 < DBL_LIMIT"
  by (simp add: MAX_VALUE_def DBL_LIMIT_def)

lemma huge_in_range: "(2::rat) ^ 1020 + 1 < DBL_LIMIT"
  by (simp add: DBL_LIMIT_def)

lemma huge_scaled_overflows: "DBL_LIMIT \<le> 2 ^ 1020 * 100"
  by (simp add: DBL_LIMIT_def)

lemma round2_huge: "round2 (Fin (2 ^ 1020)) = PosInf"
proof -
  have e: "0 < EPSILON" "EPSILON < 1" by (simp_all add: EPSILON_def)
  have "\<bar>2 ^ 1020 + EPSILON\<bar> < DBL_LIMIT" using huge_in_range e by simp
  then have a: "js_add (Fin (2 ^ 1020)) (Fin EPSILON) = Fin (2 ^ 1020 + EPSILON)"
    by (simp only: js_add.simps fromExact_in_range)
  have "(2::rat) ^ 1020 * 100 \<le> (2 ^ 1020 + EPSILON) * 100" using e by simp
  with huge_scaled_overflows have "DBL_LIMIT \<le> (2 ^ 1020 + EPSILON) * 100" by (rule order_trans)
  then have b: "js_mul (Fin (2 ^ 1020 + EPSILON)) (Fin 100) = PosInf"
    by (simp only: js_mul.simps fromExact_def if_True)
  show ?thesis
    by (simp only: round2_def Let_def isFinite.simps not_True_eq_False if_False a b
        Math_round.simps js_div.simps) simp
qed

section \<open>The formula engine: claims\<close>

text \<open>
  Claim C3.  The snapshot does not depend on the field \<open>rocPct\<close> of the record:
  two records that differ only there have the same snapshot, the markup it reports is
  the constant 2.5, and the final price per piece is \<open>round2\<close> of the FOB price
  times 1.025.
\<close>

theorem C3_fixed_markup:
  "computeAll (s\<lparr> rocPct := r \<rparr>) = computeAll s \<and>
   rocPct_used (computeAll s) = Fin (25 / 10) \<and>
   finalPerPc (computeAll s) = round2 (js_mul (fobPerPc (computeAll s)) (Fin (1025 / 1000)))"
  by (simp add: computeAll_def Let_def roc_factor) (simp add: FIXED_ROC_PCT_def)

section \<open>Facts about the step list, navigation and saving\<close>

lemma length_STEPS: "length STEPS = 16"
  by (simp add: STEPS_def)

lemma requiredChecks_eq:
  "requiredChecks = [STEPS ! 0, STEPS ! 1, STEPS ! 2, STEPS ! 4, STEPS ! 12, STEPS ! 14]"
  by (simp add: requiredChecks_def stepAt_def findStep_def STEPS_def List.map_filter_simps)

lemma last_step_preview: "kind (STEPS ! 15) = K_preview"
  by (simp add: STEPS_def)

lemma stepAt_Some:
  "stepAt i = Some step \<Longrightarrow> 0 \<le> i \<and> i < 16 \<and> step = STEPS ! nat i"
  by (auto simp: stepAt_def length_STEPS split: if_splits)

lemma stepAt_not_preview:
  assumes "stepAt i = Some step" "kind step \<noteq> K_preview"
  shows "i < 15"
proof (rule ccontr)
  assume "\<not> i < 15"
  with stepAt_Some [OF assms(1)] have "i = 15" by linarith
  with stepAt_Some [OF assms(1)] have "step = STEPS ! 15" by simp
  with assms(2) last_step_preview show False by simp
qed

lemma saveDraft_index [simp]: "wizardStepIndex (saveDraft e d st) = wizardStepIndex st"
  by (simp add: saveDraft_def)

lemma clearDraft_index [simp]: "wizardStepIndex (clearDraft e st) = wizardStepIndex st"
  by (simp add: clearDraft_def)

lemma showWizardError_index [simp]: "wizardStepIndex (showWizardError m st) = wizardStepIndex st"
  by (simp add: showWizardError_def)

lemma clearWizardError_index [simp]: "wizardStepIndex (clearWizardError st) = wizardStepIndex st"
  by (simp add: clearWizardError_def)

lemma calculateAndSave_index:
  "wizardStepIndex (calculateAndSave e st) = wizardStepIndex st \<or>
   wizardStepIndex (calculateAndSave e st) = 0"
  by (simp add: calculateAndSave_def Let_def split: option.splits)

lemma wizardPrev_index: "wizardStepIndex (wizardPrev e st) = max 0 (wizardStepIndex st - 1)"
  by (simp add: wizardPrev_def)

lemma wizardNext_rejected:
  assumes "wizardState st = Some s" "stepAt (wizardStepIndex st) = Some step"
    "\<not> ok (validateStep step s)"
  shows "wizardNext e st = showWizardError (messageOf (validateStep step s)) st"
  using assms by (simp add: wizardNext_def Let_def)

lemma wizardNext_accepted:
  assumes "wizardState st = Some s" "stepAt (wizardStepIndex st) = Some step"
    "ok (validateStep step s)" "kind step \<noteq> K_preview"
  shows "wizardStepIndex (wizardNext e st) = wizardStepIndex st + 1"
  using assms stepAt_not_preview [OF assms(2) assms(4)]
  by (simp add: wizardNext_def Let_def length_STEPS)

lemma wizardNext_inRange:
  assumes "inRange st" shows "inRange (wizardNext e st)"
proof -
  have c: "inRange (calculateAndSave e (clearWizardError st))"
    using assms calculateAndSave_index [of e "clearWizardError st"]
    by (auto simp: inRange_def length_STEPS)
  show ?thesis
    using assms c
    by (auto simp: wizardNext_def Let_def inRange_def length_STEPS split: option.splits)
qed

lemma act_inRange: "inRange st \<Longrightarrow> inRange (act a st)"
proof (cases a)
  case (Next e)
  assume "inRange st"
  then show ?thesis using Next by (simp add: wizardNext_inRange)
next
  case (Prev e)
  assume "inRange st"
  then show ?thesis using Prev by (auto simp: inRange_def wizardPrev_def length_STEPS)
next
  case (Jump j)
  show ?thesis using Jump by (auto simp: inRange_def jumpTo_def length_STEPS)
qed

lemma run_inRange: "inRange st \<Longrightarrow> inRange (run acts st)"
  by (induction acts arbitrary: st) (simp_all add: act_inRange)

lemma clearDraft_products [simp]: "dbProducts (clearDraft e st) = dbProducts st"
  by (simp add: clearDraft_def)

lemma commit_no_state:
  "wizardState st = None \<Longrightarrow> calculateAndSave e st = st"
  by (simp add: calculateAndSave_def)

lemma commit_rejected:
  "wizardState st = Some s \<Longrightarrow> firstFailure requiredChecks s = Some v \<Longrightarrow>
   calculateAndSave e st = showWizardError (messageOf v) st"
  by (simp add: calculateAndSave_def)

lemma commit_put_failed:
  "wizardState st = Some s \<Longrightarrow> firstFailure requiredChecks s = None \<Longrightarrow> \<not> putSucceeds e \<Longrightarrow>
   calculateAndSave e st = showWizardError ''Could not save this costing. Please try again.'' st"
  by (simp add: calculateAndSave_def putProduct_def)

lemma commit_saved:
  "wizardState st = Some s \<Longrightarrow> firstFailure requiredChecks s = None \<Longrightarrow> putSucceeds e \<Longrightarrow>
   calculateAndSave e st =
     (clearDraft e (st\<lparr> dbProducts :=
        buildProduct e s # filter (\<lambda>q. p_id q \<noteq> p_id (buildProduct e s)) (dbProducts st) \<rparr>))
       \<lparr> wizardState := None, wizardStepIndex := 0, currentDetail := Some (buildProduct e s) \<rparr>"
  by (simp add: calculateAndSave_def putProduct_def Let_def)

lemma style_ok_weight:
  assumes "validateStep (STEPS ! 0) s = OK"
  shows "js_less (Fin 0) (toNum (weightGm s))"
  using assms by (simp add: validateStep_def STEPS_def split: if_splits)

lemma checks_weight:
  assumes "firstFailure requiredChecks s = None"
  shows "js_less (Fin 0) (toNum (weightGm s))"
proof -
  have "ok (validateStep (STEPS ! 0) s)"
    using assms by (simp add: requiredChecks_eq Let_def split: if_splits)
  then have "validateStep (STEPS ! 0) s = OK" by (cases "validateStep (STEPS ! 0) s") simp_all
  then show ?thesis by (rule style_ok_weight)
qed

lemma built_record_positive:
  assumes "firstFailure requiredChecks s = None"
  shows "(\<exists>w. p_weightGm (buildProduct e s) = Fin w \<and> 0 < w) \<and>
         c_lbsPerDoz (p_computed (buildProduct e s)) \<noteq> None \<and>
         c_lbsWithWastage (p_computed (buildProduct e s)) \<noteq> None \<and>
         c_yarnCostDoz (p_computed (buildProduct e s)) \<noteq> None"
proof -
  obtain w where w: "toNum (weightGm s) = Fin w" by (rule toNum_cases)
  with checks_weight [OF assms] have "0 < w" by simp
  with w show ?thesis by (simp add: buildProduct_def computeAll_def Let_def)
qed

lemma stored_by_commit:
  assumes "p \<in> set (dbProducts (calculateAndSave e st))" "p \<notin> set (dbProducts st)"
  shows "\<exists>s. wizardState st = Some s \<and> firstFailure requiredChecks s = None \<and> putSucceeds e \<and>
             p = buildProduct e s"
proof (cases "wizardState st")
  case None
  with assms show ?thesis by (simp add: commit_no_state)
next
  case (Some s)
  show ?thesis
  proof (cases "firstFailure requiredChecks s")
    case (Some v)
    with \<open>wizardState st = Some s\<close> assms show ?thesis
      by (simp add: commit_rejected showWizardError_def)
  next
    case None
    show ?thesis
    proof (cases "putSucceeds e")
      case True
      with None \<open>wizardState st = Some s\<close> assms show ?thesis
        by (auto simp: commit_saved)
    next
      case False
      with None \<open>wizardState st = Some s\<close> assms show ?thesis
        by (simp add: commit_put_failed showWizardError_def)
    qed
  qed
qed

lemma trim_sample: "trim ''1683N'' = ''1683N''" "trim ''2/30Nm'' = ''2/30Nm''" "trim ''$'' = ''$''"
  by (simp_all add: trim_def isWhiteSpace_def)

lemma validate_simps:
  "toNum (Val 378) = Fin 378"
  by (simp_all add: toNum_def blank_def fromExact_small)

lemma sample_checks: "firstFailure requiredChecks sampleDraft = None"
  by (simp add: requiredChecks_eq STEPS_def validateStep_def Let_def trim_sample
      GAUGE_OPTIONS_def toNum_def blank_def fromExact_small property_def orEmpty_def
      isNonNegativeNumber_def isPercentValid_def)

lemma default_checks:
  "firstFailure requiredChecks defaultWizardState = Some (Fail ''Style Name is required.'')"
  by (simp add: requiredChecks_eq STEPS_def validateStep_def Let_def defaultWizardState_def
      trim_def)

lemma trim_currency: "trim (str_or DEFAULT_CURRENCY DEFAULT_CURRENCY) = DEFAULT_CURRENCY"
  by (simp add: str_or_def DEFAULT_CURRENCY_def trim_def isWhiteSpace_def)

lemma openWizard_fresh:
  assumes "\<not> resume \<or> loadDraft e st = None"
  shows "openWizard e resume None st =
           st\<lparr> wizardState := Some defaultWizardState, wizardStepIndex := 0, wizardError := None \<rparr>"
proof -
  have d: "(if resume then loadDraft e st else None) = None" using assms by auto
  have c: "defaultWizardState\<lparr> currency := trim (str_or (currency defaultWizardState) DEFAULT_CURRENCY) \<rparr>
             = defaultWizardState"
    by (simp add: defaultWizardState_def trim_currency)
  have b: "\<not> blank (wastagePct defaultWizardState)" "\<not> blank (rocPct defaultWizardState)"
    by (simp_all add: defaultWizardState_def blank_def)
  show ?thesis
    unfolding openWizard_def Let_def d by (simp add: c b)
qed

lemma openWizard_resumed:
  assumes "loadDraft e st = Some d"
  shows "wizardState (openWizard e True None st) =
           Some (d\<lparr> currency := trim (str_or (currency d) DEFAULT_CURRENCY),
                     wastagePct := (if blank (wastagePct d) then Val 8 else wastagePct d),
                     rocPct := (if blank (rocPct d) then Val 0 else rocPct d) \<rparr>)"
  using assms by (simp add: openWizard_def Let_def)

lemma percent_step_verdict:
  assumes "kind step = K_percent" "property (key step) s = Val q"
  shows "validateStep step s =
           (if 0 \<le> q \<and> q \<le> 100 then OK else Fail (title step @ '' must be between 0 and 100.''))"
proof -
  have "isPercentValid (Val q) \<longleftrightarrow> 0 \<le> q \<and> q \<le> 100"
    using DBL_LIMIT_big by (auto simp: isPercentValid_def fromExact_def Let_def)
  then show ?thesis
    using assms by (simp add: validateStep_def orEmpty_def blank_def Let_def)
qed

lemma wastage_step_verdict:
  "validateStep (STEPS ! 4) (s\<lparr> wastagePct := Val q \<rparr>) =
     (if 0 \<le> q \<and> q \<le> 100 then OK else Fail ''Wastage % must be between 0 and 100.'')"
  using percent_step_verdict [of "STEPS ! 4" "s\<lparr> wastagePct := Val q \<rparr>" q]
  by (simp add: STEPS_def property_def)

section \<open>The wizard: claims\<close>

text \<open>
  Claim C5.  Going back validates nothing: it keeps the wizard state and sets the
  step index to \<open>max 0 (i - 1)\<close>, whatever \<open>i\<close> is.  Going forward from a
  step whose validation fails leaves the index where it is; from a step other than the
  preview whose validation succeeds it sets the index to \<open>i + 1\<close>.  Starting
  from an index within \<open>0 .. N - 1\<close>, the index is within \<open>0 .. N - 1\<close>
  after any sequence of next, previous and jump actions (next on the preview step
  included, which saves the record); \<open>N\<close> is 16 and the preview is the last step.
\<close>

theorem C5_navigation:
  "wizardStepIndex (wizardPrev e st) = max 0 (wizardStepIndex st - 1) \<and>
   wizardState (wizardPrev e st) = wizardState st \<and>
   (wizardState st = Some s \<and> stepAt (wizardStepIndex st) = Some step \<and>
      \<not> ok (validateStep step s) \<longrightarrow>
      wizardStepIndex (wizardNext e st) = wizardStepIndex st) \<and>
   (wizardState st = Some s \<and> stepAt (wizardStepIndex st) = Some step \<and>
      ok (validateStep step s) \<and> kind step \<noteq> K_preview \<longrightarrow>
      wizardStepIndex (wizardNext e st) = wizardStepIndex st + 1) \<and>
   (0 \<le> wizardStepIndex st \<and> wizardStepIndex st < int (length STEPS) \<longrightarrow>
      0 \<le> wizardStepIndex (run acts st) \<and>
      wizardStepIndex (run acts st) < int (length STEPS)) \<and>
   length STEPS = 16 \<and> kind (last STEPS) = K_preview"
proof -
  have "wizardState (wizardPrev e st) = wizardState st"
    by (simp add: wizardPrev_def saveDraft_def clearWizardError_def)
  moreover have "kind (last STEPS) = K_preview" by (simp add: STEPS_def)
  ultimately show ?thesis
    using run_inRange [of st acts] wizardNext_accepted [of st s step e]
      wizardNext_rejected [of st s step e]
    by (auto simp: wizardPrev_index inRange_def length_STEPS)
qed

theorem C5_navigation_witness:
  "wizardStepIndex (wizardPrev (sampleEnv True) (sampleApp defaultWizardState 0)) = 0 \<and>
   wizardStepIndex (wizardNext (sampleEnv True) (sampleApp defaultWizardState 0)) = 0 \<and>
   wizardStepIndex (wizardNext (sampleEnv True) (sampleApp sampleDraft 0)) = 1 \<and>
   0 \<le> wizardStepIndex (run [Jump 99, Next (sampleEnv True), Prev (sampleEnv True), Jump (- 3)]
          (sampleApp sampleDraft 0)) \<and>
   wizardStepIndex (run [Jump 99, Next (sampleEnv True), Prev (sampleEnv True), Jump (- 3)]
          (sampleApp sampleDraft 0)) < 16"
proof -
  have s0: "stepAt 0 = Some (STEPS ! 0)" by (simp add: stepAt_def length_STEPS)
  have bad: "\<not> ok (validateStep (STEPS ! 0) defaultWizardState)"
    by (simp add: STEPS_def validateStep_def defaultWizardState_def trim_def)
  have good: "ok (validateStep (STEPS ! 0) sampleDraft)"
    by (simp add: STEPS_def validateStep_def trim_sample GAUGE_OPTIONS_def toNum_def blank_def
        fromExact_small)
  have np: "kind (STEPS ! 0) \<noteq> K_preview" by (simp add: STEPS_def)
  show ?thesis
    using C5_navigation [of "sampleEnv True" "sampleApp defaultWizardState 0" defaultWizardState
        "STEPS ! 0" "[]"]
      C5_navigation [of "sampleEnv True" "sampleApp sampleDraft 0" sampleDraft "STEPS ! 0"
        "[Jump 99, Next (sampleEnv True), Prev (sampleEnv True), Jump (- 3)]"]
      s0 bad good np
    by (simp add: length_STEPS)
qed

text \<open>
  Claim C6.  Saving is all-or-nothing.  If a required check fails on the wizard state,
  or the write of the record fails, then the stored records, the draft slot, the wizard
  state, the step index and the detail record are what they were (only the error
  message changes).  If the draft slot or the wizard state has changed, then the write
  succeeded, every required check passed and the record built from the wizard state is
  in the store.
\<close>

theorem C6_commit_all_or_nothing:
  "((\<exists>s. wizardState st = Some s \<and> firstFailure requiredChecks s \<noteq> None) \<or> \<not> putSucceeds e \<longrightarrow>
      dbProducts (calculateAndSave e st) = dbProducts st \<and>
      dbDraft (calculateAndSave e st) = dbDraft st \<and>
      wizardState (calculateAndSave e st) = wizardState st \<and>
      wizardStepIndex (calculateAndSave e st) = wizardStepIndex st \<and>
      currentDetail (calculateAndSave e st) = currentDetail st) \<and>
   (dbDraft (calculateAndSave e st) \<noteq> dbDraft st \<or>
    wizardState (calculateAndSave e st) \<noteq> wizardState st \<longrightarrow>
      putSucceeds e \<and>
      (\<exists>s. wizardState st = Some s \<and> firstFailure requiredChecks s = None \<and>
           buildProduct e s \<in> set (dbProducts (calculateAndSave e st))))"
proof (cases "wizardState st")
  case None
  then show ?thesis by (simp add: commit_no_state)
next
  case (Some s)
  show ?thesis
  proof (cases "firstFailure requiredChecks s")
    case (Some v)
    with \<open>wizardState st = Some s\<close> show ?thesis
      by (simp add: commit_rejected showWizardError_def)
  next
    case None
    show ?thesis
    proof (cases "putSucceeds e")
      case True
      with None \<open>wizardState st = Some s\<close> show ?thesis
        by (simp add: commit_saved clearDraft_def)
    next
      case False
      with None \<open>wizardState st = Some s\<close> show ?thesis
        by (simp add: commit_put_failed showWizardError_def)
    qed
  qed
qed

theorem C6_commit_witness:
  "dbProducts (calculateAndSave (sampleEnv True) (sampleApp defaultWizardState 15)) = [] \<and>
   dbDraft (calculateAndSave (sampleEnv True) (sampleApp defaultWizardState 15)) = Some defaultWizardState \<and>
   wizardStepIndex (calculateAndSave (sampleEnv True) (sampleApp defaultWizardState 15)) = 15 \<and>
   dbProducts (calculateAndSave (sampleEnv False) (sampleApp sampleDraft 15)) = [] \<and>
   dbDraft (calculateAndSave (sampleEnv False) (sampleApp sampleDraft 15)) = Some sampleDraft \<and>
   wizardState (calculateAndSave (sampleEnv False) (sampleApp sampleDraft 15)) = Some sampleDraft \<and>
   dbDraft (calculateAndSave (sampleEnv True) (sampleApp sampleDraft 15)) = None \<and>
   buildProduct (sampleEnv True) sampleDraft
     \<in> set (dbProducts (calculateAndSave (sampleEnv True) (sampleApp sampleDraft 15)))"
proof -
  have a: "\<exists>s. wizardState (sampleApp defaultWizardState 15) = Some s \<and>
               firstFailure requiredChecks s \<noteq> None"
    by (simp add: default_checks)
  have b: "\<not> putSucceeds (sampleEnv False)" by simp
  have c: "dbDraft (calculateAndSave (sampleEnv True) (sampleApp sampleDraft 15)) = None"
    by (simp add: commit_saved sample_checks clearDraft_def)
  show ?thesis
    using C6_commit_all_or_nothing [of "sampleApp defaultWizardState 15" "sampleEnv True"] a
      C6_commit_all_or_nothing [of "sampleApp sampleDraft 15" "sampleEnv False"] b
      C6_commit_all_or_nothing [of "sampleApp sampleDraft 15" "sampleEnv True"] c
    by simp
qed

text \<open>
  Claim C10.  Every record that saving adds to the store has a finite, strictly
  positive weight per piece, and its snapshot has pounds-per-dozen, pounds-with-wastage
  and yarn-cost-per-dozen that are not null.
\<close>

theorem C10_committed_weight_positive:
  assumes "p \<in> set (dbProducts (calculateAndSave e st))" "p \<notin> set (dbProducts st)"
  shows "(\<exists>w. p_weightGm p = Fin w \<and> 0 < w) \<and>
         c_lbsPerDoz (p_computed p) \<noteq> None \<and>
         c_lbsWithWastage (p_computed p) \<noteq> None \<and>
         c_yarnCostDoz (p_computed p) \<noteq> None"
proof -
  from stored_by_commit [OF assms] obtain s where
    "firstFailure requiredChecks s = None" "p = buildProduct e s" by blast
  then show ?thesis using built_record_positive [of s e] by simp
qed

theorem C10_committed_witness:
  "p_weightGm (buildProduct (sampleEnv True) sampleDraft) = Fin 378 \<and>
   buildProduct (sampleEnv True) sampleDraft
     \<in> set (dbProducts (calculateAndSave (sampleEnv True) (sampleApp sampleDraft 15))) \<and>
   c_lbsPerDoz (p_computed (buildProduct (sampleEnv True) sampleDraft)) \<noteq> None \<and>
   c_lbsWithWastage (p_computed (buildProduct (sampleEnv True) sampleDraft)) \<noteq> None \<and>
   c_yarnCostDoz (p_computed (buildProduct (sampleEnv True) sampleDraft)) \<noteq> None"
proof -
  have a: "buildProduct (sampleEnv True) sampleDraft
     \<in> set (dbProducts (calculateAndSave (sampleEnv True) (sampleApp sampleDraft 15)))"
    by (simp add: commit_saved sample_checks)
  have b: "buildProduct (sampleEnv True) sampleDraft \<notin> set (dbProducts (sampleApp sampleDraft 15))"
    by simp
  have c: "p_weightGm (buildProduct (sampleEnv True) sampleDraft) = Fin 378"
    by (simp add: buildProduct_def Let_def validate_simps)
  show ?thesis
    using C10_committed_weight_positive [OF a b] a c by simp
qed

text \<open>
  Claim C8, as amended.  Opening the wizard with no base data and no draft to resume
  (not asked to resume, or no draft stored or readable) gives step 0 and the default
  state: wastage 8, markup field 2.5 (the fixed constant), the other amounts 0, weight
  and yarn price blank, no gauge.  Resuming a stored draft gives step 0 and that draft
  with a blank wastage set to 8 and a blank markup field set to 0.
\<close>

theorem C8_initial_state:
  "(\<not> resume \<or> loadDraft e st = None \<longrightarrow>
      wizardState (openWizard e resume None st) = Some defaultWizardState \<and>
      wizardStepIndex (openWizard e resume None st) = 0) \<and>
   wastagePct defaultWizardState = Val 8 \<and>
   rocPct defaultWizardState = Val (5 / 2) \<and> FIXED_ROC_PCT = Fin (5 / 2) \<and>
   [accessoriesCostDoz defaultWizardState, fabricDoz defaultWizardState,
    fabricCostDoz defaultWizardState, fabricAttachCostDoz defaultWizardState,
    timingMin defaultWizardState, cmDoz defaultWizardState] = replicate 6 (Val 0) \<and>
   [weightGm defaultWizardState, yarnPricePerLb defaultWizardState] = replicate 2 EmptyStr \<and>
   gauge defaultWizardState = Null \<and>
   (loadDraft e st = Some d \<longrightarrow>
      wizardStepIndex (openWizard e True None st) = 0 \<and>
      (\<exists>d'. wizardState (openWizard e True None st) = Some d' \<and>
        wastagePct d' = (if blank (wastagePct d) then Val 8 else wastagePct d) \<and>
        rocPct d' = (if blank (rocPct d) then Val 0 else rocPct d)))"
proof -
  have "wizardStepIndex (openWizard e True None st) = 0"
    by (simp add: openWizard_def Let_def)
  moreover have "replicate 6 (Val 0) = [Val 0, Val 0, Val 0, Val 0, Val 0, Val 0]"
    by (simp add: numeral_eq_Suc)
  moreover have "replicate 2 EmptyStr = [EmptyStr, EmptyStr]"
    by (simp add: numeral_eq_Suc)
  ultimately show ?thesis
    using openWizard_fresh [of resume e st] openWizard_resumed [of e st d]
    by (auto simp: defaultWizardState_def FIXED_ROC_PCT_def)
qed

theorem C8_initial_state_witness:
  "wizardState (openWizard (sampleEnv True) False None (sampleApp sampleDraft 7)) = Some defaultWizardState \<and>
   wizardStepIndex (openWizard (sampleEnv True) False None (sampleApp sampleDraft 7)) = 0 \<and>
   (\<exists>d'. wizardState (openWizard (sampleEnv True) True None
            (sampleApp (sampleDraft\<lparr> wastagePct := EmptyStr, rocPct := Null \<rparr>) 7)) = Some d' \<and>
         wastagePct d' = Val 8 \<and> rocPct d' = Val 0)"
proof -
  have a: "loadDraft (sampleEnv True) (sampleApp (sampleDraft\<lparr> wastagePct := EmptyStr, rocPct := Null \<rparr>) 7)
           = Some (sampleDraft\<lparr> wastagePct := EmptyStr, rocPct := Null \<rparr>)"
    by (simp add: loadDraft_def)
  show ?thesis
    using C8_initial_state [of False "sampleEnv True" "sampleApp sampleDraft 7" sampleDraft]
      C8_initial_state [of True "sampleEnv True"
        "sampleApp (sampleDraft\<lparr> wastagePct := EmptyStr, rocPct := Null \<rparr>) 7"
        "sampleDraft\<lparr> wastagePct := EmptyStr, rocPct := Null \<rparr>"] a
    by (simp add: blank_def)
qed

text \<open>
  Claim C8 as stated says a blank markup field of a resumed draft is restored to the
  fixed constant; \<open>openWizard\<close> sets it to 0, which is not the constant 2.5.
\<close>

theorem C8_resume_markup_counterexample:
  "map_option rocPct (wizardState (openWizard (sampleEnv True) True None
       (sampleApp (defaultWizardState\<lparr> rocPct := EmptyStr \<rparr>) 0))) = Some (Val 0) \<and>
   Number (Val 0) \<noteq> FIXED_ROC_PCT"
  by (simp add: openWizard_def Let_def loadDraft_def blank_def defaultWizardState_def
      FIXED_ROC_PCT_def fromExact_small)

text \<open>
  Claim C4, on the markup percent.  The step \<open>rocPct\<close> that saving re-validates is
  of kind computed, so \<open>validateStep\<close> accepts a wizard state whose markup percent
  is 150; all required checks pass on the sample state with that markup, and the record
  built from it stores 150 as its markup percent.
\<close>

theorem C4_markup_not_validated:
  "findStep ''rocPct'' = Some (STEPS ! 14) \<and> kind (STEPS ! 14) = K_computed \<and>
   STEPS ! 14 \<in> set requiredChecks \<and>
   validateStep (STEPS ! 14) (s\<lparr> rocPct := Val 150 \<rparr>) = OK \<and>
   firstFailure requiredChecks (sampleDraft\<lparr> rocPct := Val 150 \<rparr>) = None \<and>
   i_rocPct (p_inputs (buildProduct e (sampleDraft\<lparr> rocPct := Val 150 \<rparr>))) = Fin 150"
  by (simp add: requiredChecks_eq findStep_def STEPS_def validateStep_def Let_def trim_sample
      GAUGE_OPTIONS_def toNum_def blank_def fromExact_small property_def orEmpty_def
      isNonNegativeNumber_def isPercentValid_def buildProduct_def)

section \<open>Facts about base64, data URLs and JSON\<close>

lemma b64val_b64char: "n < 64 \<Longrightarrow> b64val (b64char n) = Some n"
  by (auto simp: b64val_def b64char_def Let_def)

lemma b64val_equals: "b64val CHR ''='' = None"
  by (simp add: b64val_def)

lemma b64val_whitespace: "isAsciiWhitespace c \<Longrightarrow> b64val c = None"
  by (auto simp: isAsciiWhitespace_def b64val_def)

lemma b64char_not_eq: "n < 64 \<Longrightarrow> b64char n \<noteq> CHR ''=''"
  using b64val_b64char [of n] b64val_equals by auto

lemma b64char_not_ws: "n < 64 \<Longrightarrow> \<not> isAsciiWhitespace (b64char n)"
  using b64val_b64char [of n] b64val_whitespace [of "b64char n"] by auto

lemma unat8: "unat (a :: 8 word) < 256"
  using unsigned_less [of a, where ?'a = nat] by simp

lemma sextets_bound: "\<forall>n \<in> set (sextets bs). n < 64"
proof (induction bs rule: sextets.induct)
  case (3 a b)
  have "unat a < 256" "unat b < 256" by (rule unat8)+
  then show ?case by (auto simp: Let_def)
next
  case (2 a)
  have "unat a < 256" by (rule unat8)
  then show ?case by (auto simp: Let_def)
next
  case (4 a b c rest)
  have "unat a < 256" "unat b < 256" "unat c < 256" by (rule unat8)+
  with 4 show ?case by (auto simp: Let_def)
qed simp

lemma base64_split: "base64 bs = map b64char (sextets bs) @ padding bs"
  by (induction bs rule: sextets.induct) (simp_all add: Let_def)

lemma length_sextets_padding: "(length (sextets bs) + length (padding bs)) mod 4 = 0"
  by (induction bs rule: sextets.induct) (simp_all add: Let_def)

lemma length_sextets_mod: "length (sextets bs) mod 4 \<noteq> 1"
  by (induction bs rule: sextets.induct) (simp_all add: Let_def)

lemma padding_cases: "padding bs = [] \<or> padding bs = ''='' \<or> padding bs = ''==''"
  by (induction bs rule: padding.induct) simp_all

lemma split_div: "r < m \<Longrightarrow> (q * m + r) div m = (q::nat)"
  by simp

lemma split_mod: "r < m \<Longrightarrow> (q * m + r) mod m = (r::nat)"
  by simp

lemma byte1: "x div 4 * 4 + (x mod 4 * 16 + y div 16) div 16 = (x::nat)" if "y < 256"
proof -
  have "y div 16 < 16" using that by simp
  then have "(x mod 4 * 16 + y div 16) div 16 = x mod 4" by (rule split_div)
  then show ?thesis by simp
qed

lemma byte1_last: "x div 4 * 4 + x mod 4 * 16 div 16 = (x::nat)"
  by simp

lemma byte2: "(x mod 4 * 16 + y div 16) mod 16 * 16 + (y mod 16 * 4 + z div 64) div 4 = (y::nat)"
  if "y < 256" "z < 256"
proof -
  have "y div 16 < 16" "z div 64 < 4" using that by simp_all
  then have "(x mod 4 * 16 + y div 16) mod 16 = y div 16" "(y mod 16 * 4 + z div 64) div 4 = y mod 16"
    by (simp_all only: split_mod split_div)
  then show ?thesis by simp
qed

lemma byte2_last: "(x mod 4 * 16 + y div 16) mod 16 * 16 + y mod 16 * 4 div 4 = (y::nat)"
  if "y < 256"
proof -
  have "y div 16 < 16" using that by simp
  then have "(x mod 4 * 16 + y div 16) mod 16 = y div 16" by (rule split_mod)
  then show ?thesis by simp
qed

lemma byte3: "(y mod 16 * 4 + z div 64) mod 4 * 64 + z mod 64 = (z::nat)" if "z < 256"
proof -
  have "z div 64 < 4" using that by simp
  then have "(y mod 16 * 4 + z div 64) mod 4 = z div 64" by (rule split_mod)
  then show ?thesis by simp
qed

lemma decode_sextets: "decodeSextets (sextets bs) = map (\<lambda>w. char_of (unat w)) bs"
proof (induction bs rule: sextets.induct)
  case 1
  show ?case by simp
next
  case (2 a)
  show ?case
    by (simp only: sextets.simps decodeSextets.simps Let_def byte1_last list.map)
next
  case (3 a b)
  show ?case
    by (simp only: sextets.simps decodeSextets.simps Let_def byte1 [OF unat8]
        byte2_last [OF unat8] list.map)
next
  case (4 a b c rest)
  then show ?case
    by (simp only: sextets.simps decodeSextets.simps Let_def byte1 [OF unat8]
        byte2 [OF unat8 unat8] byte3 [OF unat8] list.map append.simps)
qed

lemma filter_ws_base64:
  "filter (\<lambda>c. \<not> isAsciiWhitespace c) (base64 bs) = base64 bs"
proof -
  have "\<not> isAsciiWhitespace CHR ''=''" by (simp add: isAsciiWhitespace_def)
  moreover have "set (padding bs) \<subseteq> {CHR ''=''}" using padding_cases [of bs] by auto
  ultimately have "\<forall>c \<in> set (base64 bs). \<not> isAsciiWhitespace c"
    using sextets_bound [of bs] b64char_not_ws by (auto simp: base64_split)
  then show ?thesis by simp
qed

lemma stripEquals_chars:
  assumes "\<forall>c \<in> set cs. c \<noteq> CHR ''=''"
  shows "stripEquals cs = cs" "stripEquals (cs @ ''='') = cs"
    "stripEquals (stripEquals (cs @ ''=='')) = cs"
proof -
  show a: "stripEquals cs = cs" using assms by (cases cs rule: rev_cases) (auto simp: stripEquals_def)
  show b: "stripEquals (cs @ ''='') = cs" by (simp add: stripEquals_def)
  have "stripEquals (cs @ ''=='') = cs @ ''=''"
    by (simp add: stripEquals_def butlast_append)
  then show "stripEquals (stripEquals (cs @ ''=='')) = cs" using b by simp
qed

lemma strip_base64:
  "stripEquals (stripEquals (base64 bs)) = map b64char (sextets bs)"
proof -
  have ne: "\<forall>c \<in> set (map b64char (sextets bs)). c \<noteq> CHR ''=''"
    using sextets_bound [of bs] b64char_not_eq by auto
  from padding_cases [of bs] show ?thesis
    using stripEquals_chars [OF ne] by (auto simp: base64_split)
qed

lemma those_b64val:
  "\<forall>n \<in> set ns. n < 64 \<Longrightarrow> those (map b64val (map b64char ns)) = Some ns"
  by (induction ns) (simp_all add: b64val_b64char)

theorem atob_base64: "atob (base64 bs) = Some (map (\<lambda>w. char_of (unat w)) bs)"
proof -
  have len: "length (base64 bs) mod 4 = 0"
    using length_sextets_padding [of bs] by (simp add: base64_split)
  have m: "length (map b64char (sextets bs)) mod 4 \<noteq> 1"
    using length_sextets_mod [of bs] by simp
  show ?thesis
    unfolding atob_def Let_def filter_ws_base64
    using len m
    by (simp add: strip_base64 those_b64val sextets_bound decode_sextets del: map_map)
qed

lemma splitOn_none: "sep \<notin> set xs \<Longrightarrow> splitOn sep xs = [xs]"
  by (induction xs) auto

lemma splitOn_first:
  "sep \<notin> set xs \<Longrightarrow> splitOn sep (xs @ sep # ys) = xs # splitOn sep ys"
  by (induction xs) auto

lemma b64val_comma: "b64val CHR '','' = None"
  by (simp add: b64val_def)

lemma base64_no_comma: "CHR '','' \<notin> set (base64 bs)"
proof -
  have "CHR '','' \<notin> set (padding bs)" using padding_cases [of bs] by auto
  moreover have "CHR '','' \<notin> set (map b64char (sextets bs))"
    using sextets_bound [of bs] b64val_b64char b64val_comma by fastforce
  ultimately show ?thesis by (simp add: base64_split)
qed

lemma plainMime_chars:
  assumes "plainMime m" "c \<in> set m"
  shows "\<not> isLineTerminator c" "c \<noteq> CHR '';''" "c \<noteq> CHR '',''"
proof -
  have "\<not> (\<exists>c \<in> set m. (of_char c :: nat) < 0x20 \<or> 0x7E < (of_char c :: nat))"
    using assms(1) by (auto simp: plainMime_def blobType_def split: if_splits)
  then have "\<not> (of_char c :: nat) < 0x20" using assms(2) by blast
  then show "\<not> isLineTerminator c" by (auto simp: isLineTerminator_def)
  show "c \<noteq> CHR '';''" "c \<noteq> CHR '',''" using assms by (auto simp: plainMime_def)
qed

lemma lazyUpTo_plain:
  assumes "\<forall>c \<in> set m. \<not> isLineTerminator c \<and> c \<noteq> CHR '';''"
  shows "lazyUpTo '';base64'' (m @ '';base64'') = Some m"
  using assms by (induction m) (simp_all add: startsWith_def)

lemma matchDataUrl_plain:
  assumes "\<forall>c \<in> set m. \<not> isLineTerminator c \<and> c \<noteq> CHR '';''"
  shows "matchDataUrl (''data:'' @ m @ '';base64'') = Some m"
  using lazyUpTo_plain [OF assms] by (simp add: startsWith_def)

lemma bytes_of_binary_string:
  "map (\<lambda>c. of_nat (of_char c)) (map (\<lambda>w. char_of (unat w)) bs) = (bs :: 8 word list)"
proof -
  have "of_nat (of_char (char_of (unat w) :: char)) = w" for w :: "8 word"
    using unat8 [of w] by simp
  then show ?thesis by (simp add: comp_def)
qed

theorem dataUrl_roundtrip:
  assumes "plainMime (mime b)"
  shows "dataUrlToBlob (blobToDataUrl b) = Some b"
proof -
  let ?m = "mime b"
  have ne: "?m \<noteq> []" and bt: "blobType ?m = ?m" using assms by (simp_all add: plainMime_def)
  have ch: "\<forall>c \<in> set ?m. \<not> isLineTerminator c \<and> c \<noteq> CHR '';''"
    using plainMime_chars [OF assms] by blast
  have nc: "CHR '','' \<notin> set (''data:'' @ ?m @ '';base64'')"
    using plainMime_chars(3) [OF assms] by auto
  have url: "blobToDataUrl b = (''data:'' @ ?m @ '';base64'') @ CHR '','' # base64 (bytes b)"
    using ne by (simp add: blobToDataUrl_def)
  have sp: "splitOn CHR '','' (blobToDataUrl b) = [''data:'' @ ?m @ '';base64'', base64 (bytes b)]"
    unfolding url by (simp only: splitOn_first [OF nc] splitOn_none [OF base64_no_comma])
  have mm: "(case matchDataUrl (''data:'' @ ?m @ '';base64'') of
               None \<Rightarrow> ''application/octet-stream''
             | Some m \<Rightarrow> str_or m ''application/octet-stream'') = ?m"
    using ne by (simp only: matchDataUrl_plain [OF ch] option.case str_or_def if_False)
  have nb: "newBlob (map (\<lambda>c. of_nat (of_char c)) (map (\<lambda>w. char_of (unat w)) (bytes b))) ?m = b"
    by (simp only: bytes_of_binary_string newBlob_def bt) simp
  show ?thesis
    unfolding dataUrlToBlob_def sp
    by (simp only: list.case Let_def mm atob_base64 option.case nb)
qed

lemma array_roundtrip:
  assumes "\<forall>v \<in> set vs. \<exists>j. toJSON v = Some j \<and> fromJSON j = v"
  shows "map fromJSON (map nullIfUndefined (map toJSON vs)) = vs"
  using assms
proof (induction vs)
  case Nil
  show ?case by simp
next
  case (Cons a vs)
  then obtain j where "toJSON a = Some j" "fromJSON j = a" by auto
  then have "fromJSON (nullIfUndefined (toJSON a)) = a" by (simp add: nullIfUndefined_def)
  moreover from Cons.prems have "\<forall>v \<in> set vs. \<exists>j. toJSON v = Some j \<and> fromJSON j = v" by simp
  then have "map fromJSON (map nullIfUndefined (map toJSON vs)) = vs" by (rule Cons.IH)
  ultimately show ?case by simp
qed

lemma object_roundtrip:
  assumes "\<forall>kv \<in> set kvs. \<exists>j. toJSON (snd kv) = Some j \<and> fromJSON j = snd kv"
  shows "map (map_prod id fromJSON) (dropUndefined (map (map_prod id toJSON) kvs)) = kvs"
  using assms
proof (induction kvs)
  case Nil
  show ?case by (simp add: dropUndefined_def List.map_filter_simps)
next
  case (Cons kv kvs)
  obtain k v where kv: "kv = (k, v)" by (cases kv)
  with Cons.prems obtain j where j: "toJSON v = Some j" "fromJSON j = v" by auto
  from Cons.prems have "\<forall>kv \<in> set kvs. \<exists>j. toJSON (snd kv) = Some j \<and> fromJSON j = snd kv"
    by simp
  then have ih: "map (map_prod id fromJSON) (dropUndefined (map (map_prod id toJSON) kvs)) = kvs"
    by (rule Cons.IH)
  have e: "dropUndefined (map (map_prod id toJSON) ((k, v) # kvs))
          = (k, j) # dropUndefined (map (map_prod id toJSON) kvs)"
    using j by (simp add: dropUndefined_def List.map_filter_simps)
  have "map (map_prod id fromJSON) ((k, j) # dropUndefined (map (map_prod id toJSON) kvs))
          = (k, v) # kvs"
    using ih j by simp
  then show ?case unfolding kv e .
qed

lemma json_roundtrip:
  "jsonSafe v \<Longrightarrow> \<exists>j. toJSON v = Some j \<and> fromJSON j = v"
proof (induction v)
  case (Num n)
  then show ?case by (cases n) simp_all
next
  case (Arr vs)
  then have "\<forall>v \<in> set vs. \<exists>j. toJSON v = Some j \<and> fromJSON j = v"
    by (auto simp: list_all_iff)
  then show ?case using array_roundtrip [of vs] by simp
next
  case (Obj kvs)
  then have "\<forall>kv \<in> set kvs. \<exists>j. toJSON (snd kv) = Some j \<and> fromJSON j = snd kv"
    by (fastforce simp: list_all_iff)
  then show ?case using object_roundtrip [of kvs] by simp
qed simp_all

lemma blobToDataUrl_nonempty: "blobToDataUrl b \<noteq> []"
  by (simp add: blobToDataUrl_def)

lemma js_or_string: "t \<noteq> [] \<Longrightarrow> js_or (Str t) d = Str t"
  by (simp add: js_or_def)

lemma js_or_dimension: "dimension w \<Longrightarrow> js_or (nullable w) Nul = nullable w"
  by (cases w) (auto simp: dimension_def nullable_def js_or_def)

lemma jsonSafe_nullable: "finiteOrNull x \<Longrightarrow> jsonSafe (nullable x)"
  by (cases x) (simp_all add: finiteOrNull_def nullable_def)

lemma jsonSafe_dimension: "dimension x \<Longrightarrow> jsonSafe (nullable x)"
  by (cases x) (simp_all add: dimension_def nullable_def)

lemma export_item:
  assumes "p_blob (p_photo p) = Some b" "p_type (p_photo p) \<noteq> []"
  shows "exportItem (toObject p) = Returns (Obj (setProp ''photo'' (exportedPhoto p b) (toObject p)))"
  using assms
  by (simp add: exportItem_def toObject_def optProp_def Let_def js_or_def
      blobToDataUrl_nonempty exportedPhoto_def)

lemma exported_safe:
  assumes "exportable p"
  shows "jsonSafe (Obj (setProp ''photo'' (exportedPhoto p b) (toObject p)))"
  using assms
  by (simp add: exportable_def toObject_def setProp_def exportedPhoto_def
      jsonSafe_nullable jsonSafe_dimension)

lemma import_exported:
  assumes "p_blob (p_photo p) = Some b" "p_type (p_photo p) \<noteq> []" "plainMime (mime b)"
    "dimension (p_width (p_photo p))" "dimension (p_height (p_photo p))"
    "fromJSON j = Obj (setProp ''photo'' (exportedPhoto p b) (toObject p))"
  shows "importItem other j = Returns (Obj (toObject p))"
  using assms(1,2)
  by (simp add: importItem_def assms(6) Let_def toObject_def setProp_def exportedPhoto_def
      optProp_def blobToDataUrl_nonempty String'_def dataUrl_roundtrip [OF assms(3)]
      js_or_dimension [OF assms(4)] js_or_dimension [OF assms(5)] js_or_string)

lemma item_roundtrip:
  assumes "exportable p"
  shows "\<exists>x j. exportItem (toObject p) = Returns x \<and> toJSON x = Some j \<and>
               importItem other j = Returns (Obj (toObject p))"
proof -
  from assms obtain b where b: "p_blob (p_photo p) = Some b" "plainMime (mime b)"
    by (auto simp: exportable_def split: option.splits)
  from assms have t: "p_type (p_photo p) \<noteq> []"
    and d: "dimension (p_width (p_photo p))" "dimension (p_height (p_photo p))"
    by (simp_all add: exportable_def)
  let ?x = "Obj (setProp ''photo'' (exportedPhoto p b) (toObject p))"
  from json_roundtrip [OF exported_safe [OF assms, of b]]
  obtain j where j: "toJSON ?x = Some j" "fromJSON j = ?x" by blast
  have "importItem other j = Returns (Obj (toObject p))"
    by (rule import_exported [OF b(1) t b(2) d j(2)])
  with export_item [OF b(1) t] j(1) show ?thesis by blast
qed

lemma items_roundtrip:
  assumes "\<forall>p \<in> set ps. exportable p"
  shows "\<exists>xs. collect (map exportItem (map toObject ps)) = Returns xs \<and>
              collect (map (importItem other) (map nullIfUndefined (map toJSON xs)))
                = Returns (map (\<lambda>p. Obj (toObject p)) ps)"
  using assms
proof (induction ps)
  case Nil
  show ?case by simp
next
  case (Cons p ps)
  then have "exportable p" by simp
  from item_roundtrip [OF this, of other] obtain x j where
    x: "exportItem (toObject p) = Returns x" "toJSON x = Some j"
       "importItem other j = Returns (Obj (toObject p))" by blast
  from Cons obtain xs where
    xs: "collect (map exportItem (map toObject ps)) = Returns xs"
        "collect (map (importItem other) (map nullIfUndefined (map toJSON xs)))
           = Returns (map (\<lambda>p. Obj (toObject p)) ps)" by auto
  have "collect (map exportItem (map toObject (p # ps))) = Returns (x # xs)"
    using x(1) xs(1) by simp
  moreover have "collect (map (importItem other) (map nullIfUndefined (map toJSON (x # xs))))
                   = Returns (map (\<lambda>p. Obj (toObject p)) (p # ps))"
    using x(2,3) xs(2) by (simp add: nullIfUndefined_def)
  ultimately show ?case by blast
qed

lemma import_payload:
  "importBackup other
     (JObj [(''schema'', a), (''exportedAt'', b), (''appVersion'', c), (''calcVersion'', d),
            (''items'', JArr raws)])
   = (case collect (map (importItem other) raws) of
        Throws \<Rightarrow> Throws
      | Returns products \<Rightarrow> Returns (Some products))"
  by (simp add: importBackup_def)

lemma payload_json:
  "toJSON (Obj [(''schema'', Str a), (''exportedAt'', Str b), (''appVersion'', Str c),
                (''calcVersion'', Str d), (''items'', Arr xs)])
   = Some (JObj [(''schema'', JStr a), (''exportedAt'', JStr b), (''appVersion'', JStr c),
                 (''calcVersion'', JStr d),
                 (''items'', JArr (map nullIfUndefined (map toJSON xs)))])"
  by (simp add: dropUndefined_def List.map_filter_simps)

text \<open>
  Claim C9, as amended.  For every list of records in which every number is finite and
  every photo has a blob of a plain media type, a non-empty type and dimensions that
  are absent or finite and not zero, exporting a backup and importing the file yields
  the same list: each record with the same style attributes, inputs, computed snapshot
  and photo, property by property.  The bytes decoded from the data URL of each blob
  are the bytes of the blob, and its media type is kept.
\<close>

theorem C9_backup_roundtrip:
  assumes "\<forall>p \<in> set ps. exportable p"
  shows "exportThenImport other exportedAt (map toObject ps)
           = Returns (Some (map (\<lambda>p. Obj (toObject p)) ps)) \<and>
         (\<forall>p \<in> set ps. \<forall>b. p_blob (p_photo p) = Some b \<longrightarrow>
            dataUrlToBlob (blobToDataUrl b) = Some b)"
proof -
  from items_roundtrip [OF assms, of other] obtain xs where
    xs: "collect (map exportItem (map toObject ps)) = Returns xs"
        "collect (map (importItem other) (map nullIfUndefined (map toJSON xs)))
           = Returns (map (\<lambda>p. Obj (toObject p)) ps)" by blast
  have "exportThenImport other exportedAt (map toObject ps)
          = Returns (Some (map (\<lambda>p. Obj (toObject p)) ps))"
    unfolding exportThenImport_def exportBackup_def xs(1)
    by (simp only: result.case payload_json option.case import_payload xs(2))
  moreover have "dataUrlToBlob (blobToDataUrl b) = Some b"
    if "p \<in> set ps" "p_blob (p_photo p) = Some b" for p b
  proof -
    from assms that have "plainMime (mime b)" by (auto simp: exportable_def)
    then show ?thesis by (rule dataUrl_roundtrip)
  qed
  ultimately show ?thesis by blast
qed

lemma fromJSON_not_infinite: "fromJSON j \<noteq> Num PosInf"
  by (cases j) simp_all

lemma getProp_fromJSON:
  "getProp k (fromJSON j) = Undef \<or> (\<exists>j'. getProp k (fromJSON j) = fromJSON j')"
proof (cases j)
  case (JObj kvs)
  have "map_of (map (map_prod id fromJSON) kvs) k = map_option fromJSON (map_of kvs k)"
    by (induction kvs) auto
  then show ?thesis using JObj by (cases "map_of kvs k") auto
qed simp_all

lemma getProp_setProp_other:
  "k \<noteq> k' \<Longrightarrow> getProp k (Obj (setProp k' v kvs)) = getProp k (Obj kvs)"
proof -
  assume ne: "k \<noteq> k'"
  have "map_of (map (\<lambda>(a, x). if a = k' then (a, v) else (a, x)) kvs) k = map_of kvs k"
    using ne by (induction kvs) auto
  moreover have "map_of (kvs @ [(k', v)]) k = map_of kvs k"
    using ne by (induction kvs) auto
  ultimately show ?thesis by (simp add: setProp_def)
qed

lemma importItem_cases:
  assumes "importItem other raw = Returns v"
  shows "v = fromJSON raw \<or> (\<exists>x kvs. fromJSON raw = Obj kvs \<and> v = Obj (setProp ''photo'' x kvs))"
  using assms
  by (cases "fromJSON raw")
     (auto simp: importItem_def Let_def split: if_splits option.splits)

lemma imported_computed:
  assumes "importItem other raw = Returns v"
  shows "getProp ''computed'' v = getProp ''computed'' (fromJSON raw)"
proof -
  have ne: "''computed'' \<noteq> ''photo''" by simp
  from importItem_cases [OF assms] show ?thesis
  proof
    assume "v = fromJSON raw"
    then show ?thesis by simp
  next
    assume "\<exists>x kvs. fromJSON raw = Obj kvs \<and> v = Obj (setProp ''photo'' x kvs)"
    then obtain x kvs where "fromJSON raw = Obj kvs" "v = Obj (setProp ''photo'' x kvs)"
      by blast
    then show ?thesis by (simp only: getProp_setProp_other [OF ne])
  qed
qed

lemma imported_never_infinite:
  assumes "importItem other raw = Returns v"
  shows "getProp k (getProp ''computed'' v) \<noteq> Num PosInf"
proof -
  have c: "getProp ''computed'' v = getProp ''computed'' (fromJSON raw)"
    using assms by (rule imported_computed)
  from getProp_fromJSON [of "''computed''" raw] show ?thesis
  proof
    assume "getProp ''computed'' (fromJSON raw) = Undef"
    then show ?thesis using c by simp
  next
    assume "\<exists>j'. getProp ''computed'' (fromJSON raw) = fromJSON j'"
    then obtain j' where j': "getProp ''computed'' (fromJSON raw) = fromJSON j'" ..
    from getProp_fromJSON [of k j'] show ?thesis
      using c j' fromJSON_not_infinite by auto
  qed
qed

lemma collect_single:
  assumes "collect rs = Returns [v]"
  shows "rs = [Returns v]"
proof (cases rs)
  case Nil
  with assms show ?thesis by simp
next
  case (Cons r rest)
  show ?thesis
  proof (cases r)
    case Throws
    with Cons assms show ?thesis by simp
  next
    case (Returns x)
    with Cons assms have "collect rest = Returns []" "x = v"
      by (auto split: result.splits)
    moreover from this(1) have "rest = []"
      by (cases rest rule: collect.cases) (auto split: result.splits)
    ultimately show ?thesis using Cons Returns by simp
  qed
qed

lemma never_imported:
  assumes "getProp k (getProp ''computed'' v) = Num PosInf"
  shows "importBackup other file \<noteq> Returns (Some [v])"
proof
  assume a: "importBackup other file = Returns (Some [v])"
  then obtain kvs raws where
    "collect (map (importItem other) raws) = Returns [v]"
    by (auto simp: importBackup_def split: json.splits option.splits result.splits)
  from collect_single [OF this] obtain raw where "importItem other raw = Returns v"
    by (cases raws) auto
  from imported_never_infinite [OF this, of k] assms show False by simp
qed

lemma plainMime_jpeg: "plainMime ''image/jpeg''"
  by (simp add: plainMime_def blobType_def toLowerAscii_def)

lemma base64_jpeg_magic: "base64 [255, 216, 255] = ''/9j/''"
  by code_simp

lemma computeAll_sample:
  "computeAll sampleDraft
   = \<lparr> lbsPerDoz = Some (Fin 10), lbsWithWastage = Some (Fin (105 / 10)),
       yarnCostDoz = Some (Fin 21), totalDoz = Fin 30, fobPerPc = Fin (250 / 100),
       finalPerPc = Fin (256 / 100), rocPct_used = Fin (25 / 10) \<rparr>"
  by (simp add: computeAll_def Let_def GM_value toNum_def blank_def fromExact_small round2_def
      EPSILON_def PIECES_PER_DOZEN_def FIXED_ROC_PCT_def floor_rat_numeral_div)

lemma sample_exportable: "exportable (buildProduct (sampleEnv True) sampleDraft)"
  by (simp add: exportable_def buildProduct_def computeAll_sample Let_def toNum_def blank_def
      fromExact_small plainMime_jpeg str_or_def num_or_null_def dimension_def finiteOrNull_def)

theorem C9_backup_roundtrip_witness:
  "exportThenImport (\<lambda>v. []) ''2024-01-02T00:00:00.000Z''
      [toObject (buildProduct (sampleEnv True) sampleDraft)]
     = Returns (Some [Obj (toObject (buildProduct (sampleEnv True) sampleDraft))]) \<and>
   dataUrlToBlob (blobToDataUrl \<lparr> bytes = [255, 216, 255], mime = ''image/jpeg'' \<rparr>)
     = Some \<lparr> bytes = [255, 216, 255], mime = ''image/jpeg'' \<rparr>"
proof -
  have b: "p_blob (p_photo (buildProduct (sampleEnv True) sampleDraft))
             = Some \<lparr> bytes = [255, 216, 255], mime = ''image/jpeg'' \<rparr>"
    by (simp add: buildProduct_def Let_def)
  have e: "\<forall>p \<in> set [buildProduct (sampleEnv True) sampleDraft]. exportable p"
    by (simp add: sample_exportable)
  show ?thesis
    using C9_backup_roundtrip [OF e, of "\<lambda>v. []" "''2024-01-02T00:00:00.000Z''"] b
    by simp
qed

text \<open>
  A record the wizard saves for a yarn price of \<open>2^1023\<close> per pound: the price is a
  finite double and passes validation, the yarn cost and the total overflow to
  Infinity, and JSON writes Infinity as \<open>null\<close>.
\<close>

lemma huge_price: "Number (Val (2 ^ 1023)) = Fin (2 ^ 1023)"
proof -
  have "\<bar>(2::rat) ^ 1023\<bar> < DBL_LIMIT" by (simp add: DBL_LIMIT_def)
  then show ?thesis by (simp only: Number.simps fromExact_in_range)
qed

lemma huge_cost: "js_mul (Fin (2 ^ 1023)) (Fin (21 / 2)) = PosInf"
proof -
  have "DBL_LIMIT \<le> 2 ^ 1023 * (21 / 2)" by (simp add: DBL_LIMIT_def)
  then show ?thesis by (simp only: js_mul.simps fromExact_def if_True)
qed

lemma computeAll_overflow:
  assumes "Number (Val q) = Fin q" "js_mul (Fin q) (Fin (21 / 2)) = PosInf"
  shows "computeAll (sampleDraft\<lparr> yarnPricePerLb := Val q \<rparr>)
   = \<lparr> lbsPerDoz = Some (Fin 10), lbsWithWastage = Some (Fin (21 / 2)),
       yarnCostDoz = Some PosInf, totalDoz = PosInf, fobPerPc = Fin 0,
       finalPerPc = Fin 0, rocPct_used = Fin (5 / 2) \<rparr>"
proof -
  have t: "toNum (Val 378) = Fin 378" "toNum (Val 5) = Fin 5" "toNum (Val 3) = Fin 3"
    "toNum (Val 0) = Fin 0" "toNum (Val 6) = Fin 6"
    by (simp_all add: toNum_def blank_def fromExact_small)
  have q: "toNum (Val q) = Fin q"
    by (simp only: toNum_def Let_def assms(1)) (simp add: blank_def)
  have l: "js_div (Fin 378) GM_PER_LB_PER_PIECE_IN_DOZEN = Fin 10"
    by (simp add: GM_value fromExact_small)
  have w: "js_mul (Fin 10) (js_add (Fin 1) (js_div (Fin 5) (Fin 100))) = Fin (21 / 2)"
    by (simp add: fromExact_small)
  have r0: "round2 (Fin 0) = Fin 0"
    by (simp add: round2_def EPSILON_def fromExact_small floor_rat_numeral_div)
  have ri: "round2 PosInf = Fin 0" by (simp add: round2_def)
  have z: "js_mul (Fin 0) (js_add (Fin 1) (js_div (Fin (5 / 2)) (Fin 100))) = Fin 0"
    by (simp add: fromExact_small)
  have f: "FIXED_ROC_PCT = Fin (5 / 2)" by (simp add: FIXED_ROC_PCT_def)
  have d: "js_div PosInf PIECES_PER_DOZEN = PosInf" by (simp add: PIECES_PER_DOZEN_def)
  have a: "js_add PosInf (Fin x) = PosInf" for x by simp
  have g: "js_less (Fin 0) (Fin 378)" by simp
  show ?thesis
    by (simp add: computeAll_def Let_def t q l w assms(2) a d ri z r0 f g
        del: js_add.simps js_mul.simps js_div.simps js_less.simps)
qed

lemma overflow_checks:
  assumes "Number (Val q) = Fin q" "0 \<le> q"
  shows "firstFailure requiredChecks (sampleDraft\<lparr> yarnPricePerLb := Val q \<rparr>) = None"
proof -
  have nn: "isNonNegativeNumber (Val q)"
    using assms by (simp only: isNonNegativeNumber_def Let_def) simp
  have b: "\<not> blank (Val q)" by (simp add: blank_def)
  have p: "validateStep (STEPS ! 1) (sampleDraft\<lparr> yarnPricePerLb := Val q \<rparr>) = OK"
    using nn b by (simp add: STEPS_def validateStep_def Let_def property_def orEmpty_def
        del: Number.simps)
  have s0: "validateStep (STEPS ! 0) (sampleDraft\<lparr> yarnPricePerLb := Val q \<rparr>) = OK"
    by (simp add: STEPS_def validateStep_def trim_sample GAUGE_OPTIONS_def toNum_def blank_def
        fromExact_small)
  have s2: "validateStep (STEPS ! 2) (sampleDraft\<lparr> yarnPricePerLb := Val q \<rparr>) = OK"
    by (simp add: STEPS_def validateStep_def Let_def blank_def fromExact_small property_def
        orEmpty_def isNonNegativeNumber_def)
  have s4: "validateStep (STEPS ! 4) (sampleDraft\<lparr> yarnPricePerLb := Val q \<rparr>) = OK"
    by (simp add: STEPS_def validateStep_def Let_def blank_def fromExact_small property_def
        orEmpty_def isPercentValid_def)
  have s12: "validateStep (STEPS ! 12) (sampleDraft\<lparr> yarnPricePerLb := Val q \<rparr>) = OK"
    by (simp add: STEPS_def validateStep_def Let_def blank_def fromExact_small property_def
        orEmpty_def isNonNegativeNumber_def)
  have s14: "validateStep (STEPS ! 14) (sampleDraft\<lparr> yarnPricePerLb := Val q \<rparr>) = OK"
    by (simp add: STEPS_def validateStep_def)
  show ?thesis
    by (simp only: requiredChecks_eq firstFailure.simps Let_def p s0 s2 s4 s12 s14
        ok.simps not_True_eq_False if_False)
qed

lemma overflow_roundtrip_value:
  assumes "Number (Val q) = Fin q" "js_mul (Fin q) (Fin (21 / 2)) = PosInf"
  shows "\<exists>v. exportThenImport other exportedAt
              [toObject (buildProduct e (sampleDraft\<lparr> yarnPricePerLb := Val q \<rparr>))]
             = Returns (Some [v]) \<and>
           getProp ''totalDoz'' (getProp ''computed'' v) = Nul \<and>
           getProp ''yarnCostDoz'' (getProp ''computed'' v) = Nul \<and>
           getProp ''photo'' v
             = Obj [(''blob'', BlobV \<lparr> bytes = [255, 216, 255], mime = ''image/jpeg'' \<rparr>),
                    (''type'', Str ''image/jpeg''), (''width'', Num (Fin 2)),
                    (''height'', Num (Fin 1))]"
proof -
  let ?d = "sampleDraft\<lparr> yarnPricePerLb := Val q \<rparr>"
  let ?b = "\<lparr> bytes = [255, 216, 255], mime = ''image/jpeg'' \<rparr> :: blob"
  have t: "toNum (Val 378) = Fin 378" "toNum (Val 5) = Fin 5" "toNum (Val 3) = Fin 3"
    "toNum (Val 0) = Fin 0" "toNum (Val 6) = Fin 6" "toNum (Val (5 / 2)) = Fin (5 / 2)"
    "Number (Val 7) = Fin 7"
    by (simp_all add: toNum_def blank_def fromExact_small)
  have q: "toNum (Val q) = Fin q"
    by (simp only: toNum_def Let_def assms(1)) (simp add: blank_def)
  have rt: "dataUrlToBlob (blobToDataUrl ?b) = Some ?b"
    by (rule dataUrl_roundtrip) (simp add: plainMime_jpeg)
  have x: "exportItem (toObject (buildProduct e ?d))
             = Returns (Obj (setProp ''photo'' (exportedPhoto (buildProduct e ?d) ?b)
                 (toObject (buildProduct e ?d))))"
    by (rule export_item) (simp_all add: buildProduct_def Let_def str_or_def)
  have j: "toJSON (Obj (setProp ''photo'' (exportedPhoto (buildProduct e ?d) ?b)
                 (toObject (buildProduct e ?d)))) = Some j \<Longrightarrow>
           \<exists>v. importItem other j = Returns v \<and>
             getProp ''totalDoz'' (getProp ''computed'' v) = Nul \<and>
             getProp ''yarnCostDoz'' (getProp ''computed'' v) = Nul \<and>
             getProp ''photo'' v
               = Obj [(''blob'', BlobV ?b), (''type'', Str ''image/jpeg''),
                      (''width'', Num (Fin 2)), (''height'', Num (Fin 1))]" for j
    by (auto simp: buildProduct_def Let_def computeAll_overflow [OF assms, simplified] t q str_or_def
        num_or_null_def toObject_def exportedPhoto_def setProp_def nullable_def
        dropUndefined_def List.map_filter_simps importItem_def optProp_def
        blobToDataUrl_nonempty String'_def rt js_or_def
        simp del: Number.simps)
  let ?x = "Obj (setProp ''photo'' (exportedPhoto (buildProduct e ?d) ?b)
                 (toObject (buildProduct e ?d)))"
  obtain j0 where j0: "toJSON ?x = Some j0" by simp
  from j [OF j0] obtain v where v: "importItem other j0 = Returns v"
    "getProp ''totalDoz'' (getProp ''computed'' v) = Nul"
    "getProp ''yarnCostDoz'' (getProp ''computed'' v) = Nul"
    "getProp ''photo'' v
       = Obj [(''blob'', BlobV ?b), (''type'', Str ''image/jpeg''),
              (''width'', Num (Fin 2)), (''height'', Num (Fin 1))]" by blast
  have c: "collect (map exportItem [toObject (buildProduct e ?d)]) = Returns [?x]"
    by (simp only: list.map x collect.simps result.case)
  have n: "map nullIfUndefined (map toJSON [?x]) = [j0]"
    by (simp only: list.map j0 nullIfUndefined_def option.case)
  have i: "collect (map (importItem other) [j0]) = Returns [v]"
    by (simp only: list.map v(1) collect.simps result.case)
  have "exportThenImport other exportedAt [toObject (buildProduct e ?d)] = Returns (Some [v])"
    unfolding exportThenImport_def exportBackup_def c
    by (simp only: result.case payload_json option.case import_payload n i)
  with v(2,3,4) show ?thesis by blast
qed

text \<open>
  Claim C9 as stated (every list of records) fails on the record saved from the sample
  state with a yarn price of \<open>2^1023\<close>: all required checks pass, the stored total
  per dozen is Infinity, and after export and import the record's total per dozen is
  \<open>null\<close>, so the record is not reproduced.
\<close>

theorem C9_overflow_counterexample:
  "firstFailure requiredChecks (sampleDraft\<lparr> yarnPricePerLb := Val (2 ^ 1023) \<rparr>) = None \<and>
   c_totalDoz (p_computed (buildProduct (sampleEnv True)
       (sampleDraft\<lparr> yarnPricePerLb := Val (2 ^ 1023) \<rparr>))) = PosInf \<and>
   (\<exists>v. exportThenImport (\<lambda>v. []) ''2024-01-02T00:00:00.000Z''
          [toObject (buildProduct (sampleEnv True)
             (sampleDraft\<lparr> yarnPricePerLb := Val (2 ^ 1023) \<rparr>))]
         = Returns (Some [v]) \<and>
        getProp ''totalDoz'' (getProp ''computed'' v) = Nul \<and>
        v \<noteq> Obj (toObject (buildProduct (sampleEnv True)
                 (sampleDraft\<lparr> yarnPricePerLb := Val (2 ^ 1023) \<rparr>))))"
proof -
  let ?d = "sampleDraft\<lparr> yarnPricePerLb := Val (2 ^ 1023) \<rparr>"
  let ?p = "buildProduct (sampleEnv True) ?d"
  have c: "totalDoz (computeAll ?d) = PosInf"
    by (simp only: computeAll_overflow [OF huge_price huge_cost] snapshot.simps)
  have "c_totalDoz (p_computed (buildProduct e d)) = totalDoz (computeAll d)" for e d
    by (simp add: buildProduct_def Let_def)
  then have t: "c_totalDoz (p_computed ?p) = PosInf" by (simp only: c)
  have "getProp ''totalDoz'' (getProp ''computed'' (Obj (toObject p))) = Num (c_totalDoz (p_computed p))"
    for p by (simp add: toObject_def)
  then have g: "getProp ''totalDoz'' (getProp ''computed'' (Obj (toObject ?p))) = Num PosInf"
    by (simp only: t)
  from overflow_roundtrip_value [OF huge_price huge_cost,
      of "\<lambda>v. []" "''2024-01-02T00:00:00.000Z''" "sampleEnv True"]
  obtain v where v: "exportThenImport (\<lambda>v. []) ''2024-01-02T00:00:00.000Z'' [toObject ?p]
                       = Returns (Some [v])"
    "getProp ''totalDoz'' (getProp ''computed'' v) = Nul" by blast
  have "v \<noteq> Obj (toObject ?p)"
  proof
    assume "v = Obj (toObject ?p)"
    with v(2) g show False by simp
  qed
  moreover have "(0::rat) \<le> 2 ^ 1023" by simp
  note overflow_checks [OF huge_price this]
  ultimately show ?thesis using t v by blast
qed

text \<open>
  The photo conditions of the amended claim are needed as well: a photo entry without a
  blob is exported as \<open>null\<close>.  Records built by the wizard meet the conditions as
  long as their photo comes with a blob of a plain media type and finite dimensions and
  no computed amount overflows.
\<close>

lemma export_without_blob:
  assumes "p_blob (p_photo p) = None"
  shows "exportItem (toObject p) = Returns (Obj (setProp ''photo'' Nul (toObject p)))"
  using assms by (simp add: exportItem_def toObject_def optProp_def Let_def)

lemma built_exportable:
  assumes checks: "firstFailure requiredChecks s = None"
    and ph: "photo s = Some ph" "blob ph = Some b" "plainMime (mime b)"
      "finiteOrNull (width ph)" "finiteOrNull (height ph)"
    and fin: "finiteOrNull (lbsWithWastage (computeAll s))"
      "finiteOrNull (yarnCostDoz (computeAll s))" "isFinite (totalDoz (computeAll s))"
      "isFinite (fobPerPc (computeAll s))" "isFinite (finalPerPc (computeAll s))"
  shows "exportable (buildProduct e s)"
proof -
  have g: "isFinite (Number (gauge s))"
  proof -
    have "ok (validateStep (STEPS ! 0) s)"
      using checks by (simp add: requiredChecks_eq Let_def split: if_splits)
    then have "Number (gauge s) \<in> set GAUGE_OPTIONS"
      by (simp add: validateStep_def STEPS_def split: if_splits)
    then show ?thesis by (auto simp: GAUGE_OPTIONS_def)
  qed
  have n: "isFinite (toNum v)" for v by (rule toNum_cases [of v]) simp
  have m: "isFinite (Math_trunc (toNum v))" for v by (rule toNum_cases [of v]) simp
  have d: "finiteOrNull w \<Longrightarrow> dimension (num_or_null w)" for w
    by (cases w) (auto simp: finiteOrNull_def dimension_def num_or_null_def)
  obtain w where w: "toNum (weightGm s) = Fin w" "\<bar>w\<bar> < DBL_LIMIT" by (rule toNum_cases)
  have l: "finiteOrNull (lbsPerDoz (computeAll s))"
    using w by (simp add: computeAll_def Let_def finiteOrNull_def GM_value lbs_in_range)
  show ?thesis
    using ph fin g l
    by (simp add: exportable_def buildProduct_def Let_def n m d str_or_def)
qed

end
